theory Spec2Isabelle
  imports Complex_Main
begin

section \<open>Grey Wolf Optimizer strategies of \<open>mealpy/swarm_based/GWO.py\<close>\<close>

text \<open>
  The four classes \<open>BaseGWO\<close>, \<open>RW_GWO\<close>, \<open>GWO_WOA_M\<close> and \<open>GWO_WOA_O\<close> each define one
  method \<open>evolve(self, epoch)\<close>. The embedding passes the object \<open>self\<close> explicitly and
  returns it updated. Python floats are idealised as \<open>real\<close>; numpy's one-dimensional
  arrays are \<open>real list\<close>. The global numpy random generator is an explicit value of an
  abstract type \<open>'g\<close> that every drawing call takes and returns. The methods inherited
  from \<open>Optimizer\<close> (not part of \<open>GWO.py\<close>) are the fields of a record of collaborators:
  pure functions of their arguments (and of the generator, where they draw). An
  exception is a result \<open>Inl e\<close>: the division of two integers by zero, an index beyond
  the end of a list, the arithmetic of two arrays of shapes that do not broadcast, the
  positional merge of two populations that it refuses.
  \<open>np.exp\<close>, \<open>np.cos\<close> and \<open>np.pi\<close> are \<open>exp\<close>, \<open>cos\<close> and \<open>pi\<close> of the reals.
\<close>

subsection \<open>Errors, vectors and numpy arithmetic\<close>

datatype error = ZeroDivisionError | IndexError | ValueError

definition bind_err :: "error + 'a \<Rightarrow> ('a \<Rightarrow> error + 'b) \<Rightarrow> error + 'b" where
  "bind_err m f = (case m of Inl e \<Rightarrow> Inl e | Inr x \<Rightarrow> f x)"

type_synonym vec = "real list"

text \<open>
  A binary operator on two one-dimensional arrays: elementwise on equal shapes, a
  length-one array is broadcast, any other pair of shapes raises \<open>ValueError\<close>.
\<close>

definition np_binop :: "(real \<Rightarrow> real \<Rightarrow> real) \<Rightarrow> vec \<Rightarrow> vec \<Rightarrow> error + vec" where
  "np_binop f xs ys =
     (if length xs = length ys then Inr (map2 f xs ys)
      else if length xs = 1 then Inr (map (f (hd xs)) ys)
      else if length ys = 1 then Inr (map (\<lambda>x. f x (hd ys)) xs)
      else Inl ValueError)"

definition np_add :: "vec \<Rightarrow> vec \<Rightarrow> error + vec" where
  "np_add xs ys = np_binop (+) xs ys"

definition np_sub :: "vec \<Rightarrow> vec \<Rightarrow> error + vec" where
  "np_sub xs ys = np_binop (-) xs ys"

text \<open>A Python scalar times an array, \<open>np.abs\<close> of an array, an array divided by a scalar.\<close>

definition np_scale :: "real \<Rightarrow> vec \<Rightarrow> vec" where
  "np_scale c xs = map (\<lambda>x. c * x) xs"

definition np_abs :: "vec \<Rightarrow> vec" where
  "np_abs xs = map abs xs"

definition np_div :: "vec \<Rightarrow> real \<Rightarrow> vec" where
  "np_div xs c = map (\<lambda>x. x / c) xs"

text \<open>\<open>xs[i]\<close> for a non-negative index: \<open>IndexError\<close> beyond the end.\<close>

definition py_index :: "'a list \<Rightarrow> nat \<Rightarrow> error + 'a" where
  "py_index xs i = (if i < length xs then Inr (xs ! i) else Inl IndexError)"

subsection \<open>Solutions, the optimizer object and its collaborators\<close>

text \<open>
  A solution is the two-element list \<open>[position, target]\<close>; \<open>ID_POS = 0\<close> selects the
  position. A candidate that is not evaluated yet is \<open>[pos_new, None]\<close>.
\<close>

datatype 't solution = Solution (position: vec) (target: "'t option")

text \<open>
  The attributes of \<open>self\<close> that \<open>evolve\<close> reads or writes. \<open>epoch\<close> is \<open>self.epoch\<close>, the
  configured number of epochs; \<open>mode_available\<close> is the truth value of
  \<open>self.mode in self.AVAILABLE_MODES\<close> (batch evaluation); \<open>lb\<close>, \<open>ub\<close>, \<open>n_dims\<close> are the
  attributes of \<open>self.problem\<close>; \<open>rng\<close> is the state of the random generator.
\<close>

record ('g, 't) optimizer =
  epoch :: int
  pop_size :: nat
  mode_available :: bool
  lb :: vec
  ub :: vec
  n_dims :: nat
  pop :: "'t solution list"
  g_best :: "'t solution"
  rng :: 'g

text \<open>
  The calls that leave \<open>GWO.py\<close>: the numpy random generator and the methods of the base
  class \<open>Optimizer\<close>. \<open>get_special_solutions\<close> stands for the middle component of the
  triple the method returns (the only one \<open>evolve\<close> keeps). The positional merge
  \<open>greedy_selection_population\<close> is specified for two populations of one size; it may refuse
  its arguments, so its result is a population or an exception, and an exception leaves
  \<open>evolve\<close> before the assignment that would have stored the result.
\<close>

record ('g, 't) collaborators =
  rand :: "'g \<Rightarrow> real \<times> 'g"
  uniform :: "'g \<Rightarrow> real \<times> 'g"
  uniform_between :: "real \<Rightarrow> real \<Rightarrow> 'g \<Rightarrow> real \<times> 'g"
  standard_cauchy :: "nat \<Rightarrow> 'g \<Rightarrow> vec \<times> 'g"
  get_special_solutions :: "'t solution list \<Rightarrow> nat \<Rightarrow> 't solution list"
  amend_position :: "vec \<Rightarrow> vec \<Rightarrow> vec \<Rightarrow> 'g \<Rightarrow> vec \<times> 'g"
  create_solution :: "vec \<Rightarrow> vec \<Rightarrow> 'g \<Rightarrow> 't solution \<times> 'g"
  get_target_wrapper :: "vec \<Rightarrow> 't"
  update_target_wrapper_population :: "'t solution list \<Rightarrow> 't solution list"
  greedy_selection_population :: "'t solution list \<Rightarrow> 't solution list \<Rightarrow> error + 't solution list"
  get_sorted_strim_population :: "'t solution list \<Rightarrow> nat \<Rightarrow> 't solution list"
  get_better_solution :: "'t solution \<Rightarrow> 't solution \<Rightarrow> 't solution"

subsection \<open>Loops and the shared formulas\<close>

text \<open>\<open>for i in ...: body\<close> over a state; an exception in the body leaves the loop.\<close>

primrec for_range :: "(nat \<Rightarrow> 's \<Rightarrow> error + 's) \<Rightarrow> nat list \<Rightarrow> 's \<Rightarrow> error + 's" where
  "for_range body [] st = Inr st"
| "for_range body (i # is) st =
     (case body i st of Inl e \<Rightarrow> Inl e | Inr st' \<Rightarrow> for_range body is st')"

text \<open>
  \<open>2 - 2 * epoch / (self.epoch - 1)\<close> on two Python integers: true division, which raises
  \<open>ZeroDivisionError\<close> on a zero divisor.
\<close>

definition linear_decay :: "int \<Rightarrow> int \<Rightarrow> error + real" where
  "linear_decay t T =
     (if T - 1 = 0 then Inl ZeroDivisionError
      else Inr (2 - real_of_int (2 * t) / real_of_int (T - 1)))"

text \<open>\<open>center - A * np.abs(C * ref - x)\<close>, the inner difference first.\<close>

definition attract :: "vec \<Rightarrow> real \<Rightarrow> real \<Rightarrow> vec \<Rightarrow> vec \<Rightarrow> error + vec" where
  "attract center A C ref x =
     bind_err (np_sub (np_scale C ref) x) (\<lambda>D.
       np_sub center (np_scale A (np_abs D)))"

text \<open>
  \<open>(X1 + X2 + X3) / 3.0\<close> where \<open>Xi = leaders[i][ID_POS] - Ai * np.abs(Ci * ref - x)\<close> and
  \<open>x = pop[idx][ID_POS]\<close>. The reference \<open>ref\<close> is the leader's own position in \<open>BaseGWO\<close>
  and the hybrids, and \<open>self.g_best[ID_POS]\<close> in \<open>RW_GWO\<close>; \<open>ref_of\<close> maps the leader's
  position to it. The statements run in the source's order, so the first exception of
  the source is the one returned.
\<close>

definition leaders_mean ::
  "'t solution list \<Rightarrow> (vec \<Rightarrow> vec) \<Rightarrow> real \<times> real \<Rightarrow> real \<times> real \<Rightarrow> real \<times> real \<Rightarrow>
   't solution list \<Rightarrow> nat \<Rightarrow> error + vec" where
  "leaders_mean leaders ref_of AC1 AC2 AC3 ps idx =
     bind_err (py_index leaders 0) (\<lambda>L1.
     bind_err (py_index ps idx) (\<lambda>x.
     bind_err (attract (position L1) (fst AC1) (snd AC1) (ref_of (position L1)) (position x)) (\<lambda>X1.
     bind_err (py_index leaders 1) (\<lambda>L2.
     bind_err (attract (position L2) (fst AC2) (snd AC2) (ref_of (position L2)) (position x)) (\<lambda>X2.
     bind_err (py_index leaders 2) (\<lambda>L3.
     bind_err (attract (position L3) (fst AC3) (snd AC3) (ref_of (position L3)) (position x)) (\<lambda>X3.
     bind_err (np_add X1 X2) (\<lambda>X12.
     bind_err (np_add X12 X3) (\<lambda>X123.
       Inr (np_div X123 3))))))))))"

text \<open>
  The tail of a loop body that every strategy shares: repair the position, append the
  unevaluated candidate to \<open>pop_new\<close> and, outside the batch modes, evaluate it and store
  \<open>get_better_solution([pos_new, target], self.pop[idx])\<close> in slot \<open>idx\<close>.
\<close>

definition amend_and_select ::
  "('g, 't) collaborators \<Rightarrow> vec \<Rightarrow> 'g \<Rightarrow> nat \<Rightarrow> ('g, 't) optimizer \<times> 't solution list \<Rightarrow>
   error + (('g, 't) optimizer \<times> 't solution list)" where
  "amend_and_select env pos g idx st =
     (case st of (self, pop_new) \<Rightarrow>
        (case amend_position env pos (lb self) (ub self) g of (pos_new, g') \<Rightarrow>
           if \<not> mode_available self then
             bind_err (py_index (pop self) idx) (\<lambda>old.
               Inr (self\<lparr>pop := (pop self)[idx := get_better_solution env
                            (Solution pos_new (Some (get_target_wrapper env pos_new))) old],
                         rng := g'\<rparr>,
                    pop_new @ [Solution pos_new None]))
           else Inr (self\<lparr>rng := g'\<rparr>, pop_new @ [Solution pos_new None])))"

subsection \<open>\<open>BaseGWO.evolve\<close>\<close>

definition BaseGWO_step ::
  "('g, 't) collaborators \<Rightarrow> real \<Rightarrow> 't solution list \<Rightarrow> nat \<Rightarrow>
   ('g, 't) optimizer \<times> 't solution list \<Rightarrow> error + (('g, 't) optimizer \<times> 't solution list)" where
  "BaseGWO_step env a list_best idx st =
     (case st of (self, pop_new) \<Rightarrow>
        (case uniform env (rng self) of (u1, g1) \<Rightarrow>
         case uniform env g1 of (u2, g2) \<Rightarrow>
         case uniform env g2 of (u3, g3) \<Rightarrow>
         case uniform env g3 of (u4, g4) \<Rightarrow>
         case uniform env g4 of (u5, g5) \<Rightarrow>
         case uniform env g5 of (u6, g6) \<Rightarrow>
           let A1 = a * (2 * u1 - 1); A2 = a * (2 * u2 - 1); A3 = a * (2 * u3 - 1);
               C1 = 2 * u4; C2 = 2 * u5; C3 = 2 * u6
           in bind_err (leaders_mean list_best (\<lambda>L. L) (A1, C1) (A2, C2) (A3, C3) (pop self) idx)
                (\<lambda>pos_new. amend_and_select env pos_new g6 idx (self, pop_new))))"

definition BaseGWO_evolve ::
  "('g, 't) collaborators \<Rightarrow> ('g, 't) optimizer \<Rightarrow> int \<Rightarrow> error + ('g, 't) optimizer" where
  "BaseGWO_evolve env self t =
     bind_err (linear_decay t (epoch self)) (\<lambda>a.
       let list_best = get_special_solutions env (pop self) 3 in
       bind_err (for_range (BaseGWO_step env a list_best) [0 ..< pop_size self] (self, []))
         (\<lambda>(self', pop_new).
            if mode_available self' then
              let pop_new' = update_target_wrapper_population env pop_new in
              bind_err (greedy_selection_population env (pop self') pop_new')
                (\<lambda>ps. Inr (self'\<lparr>pop := ps\<rparr>))
            else Inr self'))"

subsection \<open>\<open>RW_GWO.evolve\<close>\<close>

text \<open>
  The random walk of the leaders (the first loop). Its state is \<open>self\<close> (for the random
  generator), the list \<open>leaders\<close> and the list \<open>leaders_new\<close>.
\<close>

definition RW_GWO_walk ::
  "('g, 't) collaborators \<Rightarrow> real \<Rightarrow> nat \<Rightarrow>
   ('g, 't) optimizer \<times> 't solution list \<times> 't solution list \<Rightarrow>
   error + (('g, 't) optimizer \<times> 't solution list \<times> 't solution list)" where
  "RW_GWO_walk env a i st =
     (case st of (self, leaders, leaders_new) \<Rightarrow>
        bind_err (py_index leaders i) (\<lambda>L.
          case standard_cauchy env (n_dims self) (rng self) of (cs, g1) \<Rightarrow>
            bind_err (np_add (position L) (np_scale a cs)) (\<lambda>pos.
              case amend_position env pos (lb self) (ub self) g1 of (pos_new, g2) \<Rightarrow>
                if \<not> mode_available self then
                  Inr (self\<lparr>rng := g2\<rparr>,
                       leaders[i := get_better_solution env
                          (Solution pos_new (Some (get_target_wrapper env pos_new))) L],
                       leaders_new @ [Solution pos_new None])
                else Inr (self\<lparr>rng := g2\<rparr>, leaders, leaders_new @ [Solution pos_new None]))))"

definition RW_GWO_step ::
  "('g, 't) collaborators \<Rightarrow> real \<Rightarrow> 't solution list \<Rightarrow> nat \<Rightarrow>
   ('g, 't) optimizer \<times> 't solution list \<Rightarrow> error + (('g, 't) optimizer \<times> 't solution list)" where
  "RW_GWO_step env b leaders idx st =
     (case st of (self, pop_new) \<Rightarrow>
        (case uniform env (rng self) of (u1, g1) \<Rightarrow>
         case uniform env g1 of (u2, g2) \<Rightarrow>
         case uniform env g2 of (u3, g3) \<Rightarrow>
         case uniform env g3 of (u4, g4) \<Rightarrow>
         case uniform env g4 of (u5, g5) \<Rightarrow>
         case uniform env g5 of (u6, g6) \<Rightarrow>
           let miu1 = b * (2 * u1 - 1); miu2 = b * (2 * u2 - 1); miu3 = b * (2 * u3 - 1);
               c1 = 2 * u4; c2 = 2 * u5; c3 = 2 * u6
           in bind_err (leaders_mean leaders (\<lambda>L. position (g_best self))
                          (miu1, c1) (miu2, c2) (miu3, c3) (pop self) idx)
                (\<lambda>pos_new. amend_and_select env pos_new g6 idx (self, pop_new))))"

definition RW_GWO_evolve ::
  "('g, 't) collaborators \<Rightarrow> ('g, 't) optimizer \<Rightarrow> int \<Rightarrow> error + ('g, 't) optimizer" where
  "RW_GWO_evolve env self t =
     bind_err (linear_decay t (epoch self)) (\<lambda>b.
     bind_err (linear_decay t (epoch self)) (\<lambda>a.
       let leaders = get_special_solutions env (pop self) 3 in
       bind_err (for_range (RW_GWO_walk env a) [0 ..< length leaders] (self, leaders, []))
         (\<lambda>(self1, leaders1, leaders_new).
            bind_err
              (if mode_available self1 then
                 greedy_selection_population env leaders1
                   (update_target_wrapper_population env leaders_new)
               else Inr leaders1)
              (\<lambda>leaders2.
            bind_err (for_range (RW_GWO_step env b leaders2) [0 ..< pop_size self1] (self1, []))
              (\<lambda>(self2, pop_new).
            bind_err
              (if mode_available self2 then
                 bind_err (greedy_selection_population env (pop self2)
                             (update_target_wrapper_population env pop_new))
                   (\<lambda>ps. Inr (self2\<lparr>pop := ps\<rparr>))
               else Inr self2)
              (\<lambda>self3.
                 Inr (self3\<lparr>pop := get_sorted_strim_population env
                                  (pop self3 @ leaders2) (pop_size self3)\<rparr>)))))))"

subsection \<open>\<open>GWO_WOA_M.evolve\<close>\<close>

text \<open>\<open>a2 = -1 + epoch * ((-1) / self.epoch - 1)\<close>, again a true division of integers.\<close>

definition woa_a2 :: "int \<Rightarrow> int \<Rightarrow> error + real" where
  "woa_a2 t T =
     (if T = 0 then Inl ZeroDivisionError
      else Inr (- 1 + real_of_int t * (real_of_int (- 1) / real_of_int T - 1)))"

text \<open>
  The block that stands after the loop in \<open>BaseGWO\<close> is indented into the loop body in
  both hybrids (lines 277-279 and 382-384): it runs at the end of every iteration.
\<close>

definition batch_merge ::
  "('g, 't) collaborators \<Rightarrow> ('g, 't) optimizer \<times> 't solution list \<Rightarrow>
   error + (('g, 't) optimizer \<times> 't solution list)" where
  "batch_merge env st =
     (case st of (self, pop_new) \<Rightarrow>
        if mode_available self then
          let pop_new' = update_target_wrapper_population env pop_new in
          bind_err (greedy_selection_population env (pop self) pop_new')
            (\<lambda>ps. Inr (self\<lparr>pop := ps\<rparr>, pop_new'))
        else Inr (self, pop_new))"

text \<open>
  The value of \<open>pos_new\<close> in the branch \<open>p < 0.5\<close> of \<open>GWO_WOA_M\<close>, with the generator
  after the branch (\<open>create_solution\<close> draws from it).
\<close>

definition GWO_WOA_M_explore ::
  "('g, 't) collaborators \<Rightarrow> ('g, 't) optimizer \<Rightarrow> real \<Rightarrow> real \<Rightarrow> nat \<Rightarrow> 'g \<Rightarrow>
   error + (vec \<times> 'g)" where
  "GWO_WOA_M_explore env self A C idx g =
     (if \<bar>A\<bar> < 1 then
        bind_err (py_index (pop self) idx) (\<lambda>x.
        bind_err (attract (position (g_best self)) A C (position (g_best self)) (position x))
          (\<lambda>pos_new. Inr (pos_new, g)))
      else
        (case create_solution env (lb self) (ub self) g of (x_rand, g') \<Rightarrow>
           bind_err (py_index (pop self) idx) (\<lambda>x.
           bind_err (attract (position x_rand) A C (position x_rand) (position x))
             (\<lambda>pos_new. Inr (pos_new, g')))))"

definition GWO_WOA_M_step ::
  "('g, 't) collaborators \<Rightarrow> real \<Rightarrow> real \<Rightarrow> 't solution list \<Rightarrow> nat \<Rightarrow>
   ('g, 't) optimizer \<times> 't solution list \<Rightarrow> error + (('g, 't) optimizer \<times> 't solution list)" where
  "GWO_WOA_M_step env a a2 list_best idx st =
     (case st of (self, pop_new) \<Rightarrow>
        (case rand env (rng self) of (r1, g1) \<Rightarrow>
         case rand env g1 of (r2, g2) \<Rightarrow>
         case rand env g2 of (rl, g3) \<Rightarrow>
         case rand env g3 of (p, g4) \<Rightarrow>
         case uniform env g4 of (u1, g5) \<Rightarrow>
         case uniform env g5 of (u2, g6) \<Rightarrow>
         case uniform env g6 of (u3, g7) \<Rightarrow>
         case uniform env g7 of (u4, g8) \<Rightarrow>
         case uniform env g8 of (u5, g9) \<Rightarrow>
         case uniform env g9 of (u6, g10) \<Rightarrow>
           let A = 2 * a * r1 - a; C = 2 * r2;
               l = (a2 - 1) + rl + 1;
               b = (1 :: real);
               A1 = a * (2 * u1 - 1); C1 = 2 * u2;
               A2 = a * (2 * u3 - 1); C2 = 2 * u4;
               A3 = a * (2 * u5 - 1); C3 = 2 * u6
           in bind_err
                (if p < 0.5 then
                   bind_err (GWO_WOA_M_explore env self A C idx g10)
                     (\<lambda>(pos_new, g'). Inr (self\<lparr>rng := g'\<rparr>, pop_new))
                 else
                   bind_err (leaders_mean list_best (\<lambda>L. L) (A1, C2) (A2, C1) (A3, C3) (pop self) idx)
                     (\<lambda>pos_new. amend_and_select env pos_new g10 idx (self, pop_new)))
                (\<lambda>st'. batch_merge env st')))"

definition GWO_WOA_M_evolve ::
  "('g, 't) collaborators \<Rightarrow> ('g, 't) optimizer \<Rightarrow> int \<Rightarrow> error + ('g, 't) optimizer" where
  "GWO_WOA_M_evolve env self t =
     bind_err (linear_decay t (epoch self)) (\<lambda>a.
     bind_err (woa_a2 t (epoch self)) (\<lambda>a2.
       let list_best = get_special_solutions env (pop self) 3 in
       bind_err (for_range (GWO_WOA_M_step env a a2 list_best) [0 ..< pop_size self] (self, []))
         (\<lambda>(self', pop_new). Inr self')))"

subsection \<open>\<open>GWO_WOA_O.evolve\<close>\<close>

text \<open>\<open>a = 2 * (1 - (epoch / (2 * (self.epoch))))\<close>.\<close>

definition woa_o_decay :: "int \<Rightarrow> int \<Rightarrow> error + real" where
  "woa_o_decay t T =
     (if 2 * T = 0 then Inl ZeroDivisionError
      else Inr (2 * (1 - real_of_int t / real_of_int (2 * T))))"

text \<open>\<open>center - A * D\<close> with \<open>D = k * np.abs(C * ref - x)\<close>.\<close>

definition attract_scaled :: "vec \<Rightarrow> real \<Rightarrow> real \<Rightarrow> real \<Rightarrow> vec \<Rightarrow> vec \<Rightarrow> error + vec" where
  "attract_scaled center A k C ref x =
     bind_err (np_sub (np_scale C ref) x) (\<lambda>d.
       np_sub center (np_scale A (np_scale k (np_abs d))))"

definition GWO_WOA_O_explore ::
  "('g, 't) collaborators \<Rightarrow> ('g, 't) optimizer \<Rightarrow> 't solution list \<Rightarrow>
   real \<Rightarrow> real \<Rightarrow> real \<Rightarrow> real \<Rightarrow> real \<Rightarrow> real \<Rightarrow> real \<Rightarrow> nat \<Rightarrow> 'g \<Rightarrow> error + (vec \<times> 'g)" where
  "GWO_WOA_O_explore env self list_best A C r3 w b l C1 idx g =
     (if \<bar>A\<bar> < 1 then
        bind_err (py_index (pop self) idx) (\<lambda>x.
        bind_err (attract_scaled (position (g_best self)) A r3 C (position (g_best self)) (position x))
          (\<lambda>pos_new. Inr (pos_new, g)))
      else
        (case create_solution env (lb self) (ub self) g of (x_rand, g') \<Rightarrow>
           bind_err (py_index list_best 0) (\<lambda>L1.
           bind_err (py_index (pop self) idx) (\<lambda>x.
           bind_err (attract_scaled (position x_rand) A (w * exp (b * l) * cos (2 * pi * l)) C1
                       (position L1) (position x))
             (\<lambda>pos_new. Inr (pos_new, g'))))))"

definition GWO_WOA_O_step ::
  "('g, 't) collaborators \<Rightarrow> real \<Rightarrow> 't solution list \<Rightarrow> nat \<Rightarrow>
   ('g, 't) optimizer \<times> 't solution list \<Rightarrow> error + (('g, 't) optimizer \<times> 't solution list)" where
  "GWO_WOA_O_step env a list_best idx st =
     (case st of (self, pop_new) \<Rightarrow>
        (case rand env (rng self) of (r1, g1) \<Rightarrow>
         case rand env g1 of (r2, g2) \<Rightarrow>
         case rand env g2 of (r3, g3) \<Rightarrow>
         case rand env g3 of (w, g4) \<Rightarrow>
         case uniform_between env (- 1) 1 g4 of (l, g5) \<Rightarrow>
         case rand env g5 of (p, g6) \<Rightarrow>
         case uniform env g6 of (u1, g7) \<Rightarrow>
         case uniform env g7 of (u2, g8) \<Rightarrow>
         case uniform env g8 of (u3, g9) \<Rightarrow>
         case uniform env g9 of (u4, g10) \<Rightarrow>
         case uniform env g10 of (u5, g11) \<Rightarrow>
         case uniform env g11 of (u6, g12) \<Rightarrow>
           let A = 2 * a * r1 - a; C = 2 * r2;
               b = (1 :: real);
               A1 = a * (2 * u1 - 1); C1 = 2 * u2;
               A2 = a * (2 * u3 - 1); C2 = 2 * u4;
               A3 = a * (2 * u5 - 1); C3 = 2 * u6
           in bind_err
                (if p < 0.5 then
                   bind_err (GWO_WOA_O_explore env self list_best A C r3 w b l C1 idx g12)
                     (\<lambda>(pos_new, g'). Inr (self\<lparr>rng := g'\<rparr>, pop_new))
                 else
                   bind_err (leaders_mean list_best (\<lambda>L. L) (A1, C2) (A2, C1) (A3, C3) (pop self) idx)
                     (\<lambda>pos_new. amend_and_select env pos_new g12 idx (self, pop_new)))
                (\<lambda>st'. batch_merge env st')))"

definition GWO_WOA_O_evolve ::
  "('g, 't) collaborators \<Rightarrow> ('g, 't) optimizer \<Rightarrow> int \<Rightarrow> error + ('g, 't) optimizer" where
  "GWO_WOA_O_evolve env self t =
     bind_err (woa_o_decay t (epoch self)) (\<lambda>a.
       let list_best = get_special_solutions env (pop self) 3 in
       bind_err (for_range (GWO_WOA_O_step env a list_best) [0 ..< pop_size self] (self, []))
         (\<lambda>(self', pop_new). Inr self'))"

subsection \<open>The four strategies behind one entry point\<close>

datatype strategy = BaseGWO | RW_GWO | GWO_WOA_M | GWO_WOA_O

fun evolve ::
  "strategy \<Rightarrow> ('g, 't) collaborators \<Rightarrow> ('g, 't) optimizer \<Rightarrow> int \<Rightarrow> error + ('g, 't) optimizer" where
  "evolve BaseGWO env self t = BaseGWO_evolve env self t"
| "evolve RW_GWO env self t = RW_GWO_evolve env self t"
| "evolve GWO_WOA_M env self t = GWO_WOA_M_evolve env self t"
| "evolve GWO_WOA_O env self t = GWO_WOA_O_evolve env self t"

section \<open>Predicates of the statements\<close>

text \<open>The attributes of \<open>self\<close> that no strategy assigns.\<close>

definition same_frame :: "('g, 't) optimizer \<Rightarrow> ('g, 't) optimizer \<Rightarrow> bool" where
  "same_frame s s' \<longleftrightarrow>
     epoch s' = epoch s \<and> pop_size s' = pop_size s \<and> mode_available s' = mode_available s \<and>
     lb s' = lb s \<and> ub s' = ub s \<and> n_dims s' = n_dims s \<and> g_best s' = g_best s"


text \<open>Every coordinate of \<open>x\<close> lies in \<open>[lb[i], ub[i]]\<close> (and the three shapes agree).\<close>

definition in_bounds :: "vec \<Rightarrow> vec \<Rightarrow> vec \<Rightarrow> bool" where
  "in_bounds l u x \<longleftrightarrow> list_all2 (\<le>) l x \<and> list_all2 (\<le>) x u"

section \<open>Reference collaborators\<close>

text \<open>
  Modelled from the spec: the collaborators of its section 6, whose code (the base class
  \<open>Optimizer\<close> and numpy's generator) is not in \<open>GWO.py\<close>. They instantiate the record of
  collaborators wherever a statement is evaluated on concrete data. The generator is a
  position on a fixed tape of draws; the fitness is the scalar target, smaller is better.
\<close>

definition tape_draw :: "(nat \<Rightarrow> real) \<Rightarrow> nat \<Rightarrow> real \<times> nat" where
  "tape_draw tape g = (tape g, Suc g)"

definition tape_uniform_between :: "(nat \<Rightarrow> real) \<Rightarrow> real \<Rightarrow> real \<Rightarrow> nat \<Rightarrow> real \<times> nat" where
  "tape_uniform_between tape lo hi g = (lo + (hi - lo) * tape g, Suc g)"

definition tape_vector :: "(nat \<Rightarrow> real) \<Rightarrow> nat \<Rightarrow> nat \<Rightarrow> vec \<times> nat" where
  "tape_vector tape n g = (map tape [g ..< g + n], g + n)"

definition fitness :: "real solution \<Rightarrow> real" where
  "fitness s = (case target s of None \<Rightarrow> 0 | Some f \<Rightarrow> f)"

definition fitter :: "real solution \<Rightarrow> real solution \<Rightarrow> bool" where
  "fitter x y \<longleftrightarrow> fitness x < fitness y"

text \<open>
  Modelled from the spec: section 4.2, clamp-and-resample. A coordinate within its bounds
  is kept; any other is replaced by a point of \<open>[lb[i], ub[i]]\<close> chosen by the next draw.
\<close>

definition resample :: "(nat \<Rightarrow> real) \<Rightarrow> vec \<Rightarrow> vec \<Rightarrow> nat \<Rightarrow> nat \<Rightarrow> real" where
  "resample tape l u g i = l ! i + (u ! i - l ! i) * min 1 (max 0 (tape (g + i)))"

definition ref_amend_position :: "(nat \<Rightarrow> real) \<Rightarrow> vec \<Rightarrow> vec \<Rightarrow> vec \<Rightarrow> nat \<Rightarrow> vec \<times> nat" where
  "ref_amend_position tape x l u g =
     (map (\<lambda>i. if i < length x \<and> l ! i \<le> x ! i \<and> x ! i \<le> u ! i then x ! i
               else resample tape l u g i) [0 ..< length l],
      g + length l)"

text \<open>Modelled from the spec: section 6, a uniform-random unevaluated solution within bounds.\<close>

definition ref_create_solution :: "(nat \<Rightarrow> real) \<Rightarrow> vec \<Rightarrow> vec \<Rightarrow> nat \<Rightarrow> real solution \<times> nat" where
  "ref_create_solution tape l u g =
     (Solution (map (resample tape l u g) [0 ..< length l]) None, g + length l)"

text \<open>The objective of the docstrings' example, \<open>np.sum(solution**2)\<close>.\<close>

definition sum_squares :: "vec \<Rightarrow> real" where
  "sum_squares x = sum_list (map (\<lambda>v. v * v) x)"

text \<open>
  Modelled from the spec: section 6, the batch evaluation gives every candidate its
  target and keeps the order of the candidates.
\<close>

definition ref_update_target :: "real solution list \<Rightarrow> real solution list" where
  "ref_update_target ps = map (\<lambda>s. Solution (position s) (Some (sum_squares (position s)))) ps"

text \<open>
  Modelled from the spec: sections 4.1 and 4.5, the best \<open>k\<close> members in fitness order,
  ties in first-seen order (the sort is stable).
\<close>

definition ref_best :: "real solution list \<Rightarrow> nat \<Rightarrow> real solution list" where
  "ref_best ps k = take k (sort_key fitness ps)"

text \<open>
  Modelled from the spec: section 4.4 at the scale of one pair. \<open>evolve\<close> passes the
  candidate first and the incumbent second; a strict improvement is required to replace
  and a tie keeps the incumbent, so the first argument is returned only when it is
  strictly fitter than the second.
\<close>

definition ref_better :: "real solution \<Rightarrow> real solution \<Rightarrow> real solution" where
  "ref_better x y = (if fitness x < fitness y then x else y)"

text \<open>
  Modelled from the spec: section 8, the other wording of the same collaborator:
  \<open>get_better_solution\<close> returns the fitter of its arguments and, on an exact fitness
  tie, its first argument.
\<close>

definition ref_better_first :: "real solution \<Rightarrow> real solution \<Rightarrow> real solution" where
  "ref_better_first x y = (if fitness y < fitness x then y else x)"

text \<open>
  Modelled from the spec: section 4.4, the positional merge of two populations of one
  size. Slot by slot the candidate replaces the incumbent on a strict improvement only,
  and the result has the size of both. Two populations of different sizes have slots
  without a partner: the merge refuses them and raises.
\<close>

definition ref_greedy ::
  "real solution list \<Rightarrow> real solution list \<Rightarrow> error + real solution list" where
  "ref_greedy old new =
     (if length old = length new then
        Inr (map2 (\<lambda>incumbent cand. if fitness cand < fitness incumbent then cand else incumbent)
               old new)
      else Inl ValueError)"

definition ref_env :: "(nat \<Rightarrow> real) \<Rightarrow> (nat, real) collaborators" where
  "ref_env tape =
     \<lparr>rand = tape_draw tape,
      uniform = tape_draw tape,
      uniform_between = tape_uniform_between tape,
      standard_cauchy = tape_vector tape,
      get_special_solutions = ref_best,
      amend_position = ref_amend_position tape,
      create_solution = ref_create_solution tape,
      get_target_wrapper = sum_squares,
      update_target_wrapper_population = ref_update_target,
      greedy_selection_population = ref_greedy,
      get_sorted_strim_population = ref_best,
      get_better_solution = ref_better\<rparr>"

text \<open>
  Modelled from the spec: the same collaborators with \<open>get_better_solution\<close> as section 8
  words it.
\<close>

definition ref_env_first :: "(nat \<Rightarrow> real) \<Rightarrow> (nat, real) collaborators" where
  "ref_env_first tape = (ref_env tape)\<lparr>get_better_solution := ref_better_first\<rparr>"

text \<open>The tapes of draws that the concrete runs below use.\<close>

definition tape_half :: "nat \<Rightarrow> real" where
  "tape_half n = 1 / 2"

definition tape_quarter :: "nat \<Rightarrow> real" where
  "tape_quarter n = 1 / 4"

definition tape_cycle :: "nat \<Rightarrow> real" where
  "tape_cycle n = real (n mod 4) / 4"

definition tape_shifted :: "nat \<Rightarrow> real" where
  "tape_shifted n = real ((n + 3) mod 4) / 4"


definition tape_tie :: "nat \<Rightarrow> real" where
  "tape_tie n = (if n < 3 then 7 / 8 else 0)"

definition tape_walk :: "nat \<Rightarrow> real" where
  "tape_walk n = (if n < 6 then (if even n then - (1 / 2) else 1 / 4) else real (n mod 4) / 4)"

text \<open>
  A concrete optimizer: ten solutions on the line \<open>[-10, 10]\<close>, evaluated by the sum of
  squares, two configured epochs.
\<close>

definition demo_pop :: "real solution list" where
  "demo_pop = map (\<lambda>v. Solution [v] (Some (v * v))) [1, 2, 3, 4, 5, 6, 7, 8, 9, 10]"

definition demo_self :: "bool \<Rightarrow> (nat, real) optimizer" where
  "demo_self batch =
     \<lparr>epoch = 2, pop_size = 10, mode_available = batch, lb = [- 10], ub = [10], n_dims = 1,
      pop = demo_pop, g_best = Solution [1] (Some 1), rng = 0\<rparr>"

text \<open>
  The same population on the line \<open>[-100, 100]\<close> with three configured epochs: no
  candidate of one epoch leaves these bounds, so none is resampled.
\<close>

definition wide_self :: "bool \<Rightarrow> (nat, real) optimizer" where
  "wide_self batch = (demo_self batch)\<lparr>epoch := 3, lb := [- 100], ub := [100]\<rparr>"

section \<open>The branch draw of the hybrids\<close>

text \<open>
  The value of \<open>p\<close> in the iteration that starts with the generator in state \<open>g\<close>: in
  \<open>GWO_WOA_M\<close> the fourth draw (after \<open>r1\<close>, \<open>r2\<close> and the draw inside \<open>l\<close>), in \<open>GWO_WOA_O\<close>
  the sixth (after \<open>r1\<close>, \<open>r2\<close>, \<open>r3\<close>, \<open>w\<close> and \<open>l\<close>).
\<close>

definition GWO_WOA_M_p :: "('g, 't) collaborators \<Rightarrow> 'g \<Rightarrow> real" where
  "GWO_WOA_M_p env g = fst (rand env (snd (rand env (snd (rand env (snd (rand env g)))))))"

definition GWO_WOA_O_p :: "('g, 't) collaborators \<Rightarrow> 'g \<Rightarrow> real" where
  "GWO_WOA_O_p env g =
     fst (rand env (snd (uniform_between env (- 1) 1
       (snd (rand env (snd (rand env (snd (rand env (snd (rand env g)))))))))))"

section \<open>The update formulas as the specification writes them\<close>

text \<open>
  Coordinate by coordinate, \<open>X = center - A * |C * ref - x|\<close> (sections 4.6 to 4.9 of the
  specification) and the mean of three such vectors.
\<close>

definition spec_X :: "vec \<Rightarrow> real \<Rightarrow> real \<Rightarrow> vec \<Rightarrow> vec \<Rightarrow> vec" where
  "spec_X center A C ref x =
     map (\<lambda>j. center ! j - A * \<bar>C * ref ! j - x ! j\<bar>) [0 ..< length x]"

definition spec_mean3 :: "vec \<Rightarrow> vec \<Rightarrow> vec \<Rightarrow> vec" where
  "spec_mean3 X1 X2 X3 = map (\<lambda>j. (X1 ! j + X2 ! j + X3 ! j) / 3) [0 ..< length X1]"

text \<open>
  The three-leader average of section 4.6: the pair \<open>(A_i, C_i)\<close> goes with the leader
  \<open>L_i\<close>.
\<close>

definition spec_three_leaders ::
  "vec \<Rightarrow> vec \<Rightarrow> vec \<Rightarrow> real \<times> real \<Rightarrow> real \<times> real \<Rightarrow> real \<times> real \<Rightarrow> vec \<Rightarrow> vec" where
  "spec_three_leaders L1 L2 L3 AC1 AC2 AC3 x =
     spec_mean3 (spec_X L1 (fst AC1) (snd AC1) L1 x)
                (spec_X L2 (fst AC2) (snd AC2) L2 x)
                (spec_X L3 (fst AC3) (snd AC3) L3 x)"

section \<open>One pass over a population as the specification describes it\<close>

text \<open>
  The candidates of one pass over a list of positions: \<open>cand x g\<close> is the candidate for the
  member at \<open>x\<close> when the generator is in state \<open>g\<close>, with the generator after it; the
  generator goes from one member to the next.
\<close>

fun spec_candidates :: "(vec \<Rightarrow> 'g \<Rightarrow> vec \<times> 'g) \<Rightarrow> vec list \<Rightarrow> 'g \<Rightarrow> vec list \<times> 'g" where
  "spec_candidates cand [] g = ([], g)"
| "spec_candidates cand (x # xs) g =
     (case cand x g of (c, g1) \<Rightarrow>
      case spec_candidates cand xs g1 of (cs, g2) \<Rightarrow> (c # cs, g2))"

text \<open>
  The candidate of sections 4.6 and 4.7 for the member at \<open>x\<close>: six uniform draws give
  \<open>A_i = a * (2 * u_i - 1)\<close> and \<open>C_i = 2 * u_{3+i}\<close>, the candidate is the mean of
  \<open>X_i = L_i - A_i * |C_i * R_i - x|\<close>, repaired. Each pair is a leader's position \<open>L_i\<close> with
  the reference \<open>R_i\<close> of the distance term: the leader itself in \<open>BaseGWO\<close>, the global
  best in \<open>RW_GWO\<close>.
\<close>

definition spec_candidate ::
  "('g, 't) collaborators \<Rightarrow> real \<Rightarrow> vec \<times> vec \<Rightarrow> vec \<times> vec \<Rightarrow> vec \<times> vec \<Rightarrow> vec \<Rightarrow> vec \<Rightarrow>
   vec \<Rightarrow> 'g \<Rightarrow> vec \<times> 'g" where
  "spec_candidate env a LR1 LR2 LR3 l u x g =
     (case uniform env g of (u1, g1) \<Rightarrow>
      case uniform env g1 of (u2, g2) \<Rightarrow>
      case uniform env g2 of (u3, g3) \<Rightarrow>
      case uniform env g3 of (u4, g4) \<Rightarrow>
      case uniform env g4 of (u5, g5) \<Rightarrow>
      case uniform env g5 of (u6, g6) \<Rightarrow>
        amend_position env
          (spec_mean3 (spec_X (fst LR1) (a * (2 * u1 - 1)) (2 * u4) (snd LR1) x)
                      (spec_X (fst LR2) (a * (2 * u2 - 1)) (2 * u5) (snd LR2) x)
                      (spec_X (fst LR3) (a * (2 * u3 - 1)) (2 * u6) (snd LR3) x))
          l u g6)"

text \<open>
  The random walk of section 4.7 for the leader at \<open>L\<close>: \<open>L\<close> plus \<open>a\<close> times a vector of \<open>n\<close>
  standard-Cauchy draws, repaired.
\<close>

definition spec_walked ::
  "('g, 't) collaborators \<Rightarrow> real \<Rightarrow> nat \<Rightarrow> vec \<Rightarrow> vec \<Rightarrow> vec \<Rightarrow> 'g \<Rightarrow> vec \<times> 'g" where
  "spec_walked env a n l u L g =
     (case standard_cauchy env n g of (cs, g1) \<Rightarrow>
        amend_position env (map (\<lambda>j. L ! j + a * cs ! j) [0 ..< n]) l u g1)"

text \<open>
  Section 4.3, the two ways a list of candidates enters a list of incumbents. In
  incremental mode the candidate at \<open>c\<close> is evaluated and the slot takes
  \<open>get_better_solution\<close> of candidate and incumbent; in a batch mode the unevaluated
  candidates are evaluated together and merged by \<open>greedy_selection_population\<close>.
\<close>

definition spec_select_slot :: "('g, 't) collaborators \<Rightarrow> vec \<Rightarrow> 't solution \<Rightarrow> 't solution" where
  "spec_select_slot env c old =
     get_better_solution env (Solution c (Some (get_target_wrapper env c))) old"

definition spec_merge ::
  "('g, 't) collaborators \<Rightarrow> bool \<Rightarrow> 't solution list \<Rightarrow> vec list \<Rightarrow> error + 't solution list" where
  "spec_merge env batch old cands =
     (if batch then
        greedy_selection_population env old
          (update_target_wrapper_population env (map (\<lambda>c. Solution c None) cands))
      else Inr (map2 (spec_select_slot env) cands old))"

section \<open>The iterations of a loop\<close>

text \<open>
  The states in which the iterations of a loop start, followed by the state after the
  loop when it completes. A loop over \<open>n\<close> indices that completes has \<open>n + 1\<close> states; a
  loop that an exception leaves in its iteration \<open>k\<close> (counted from 0) has \<open>k + 1\<close>.
\<close>

fun loop_trace :: "(nat \<Rightarrow> 's \<Rightarrow> error + 's) \<Rightarrow> nat list \<Rightarrow> 's \<Rightarrow> 's list" where
  "loop_trace body [] st = [st]"
| "loop_trace body (i # is) st =
     st # (case body i st of Inl e \<Rightarrow> [] | Inr st' \<Rightarrow> loop_trace body is st')"


section \<open>Contracts of the collaborators\<close>

text \<open>
  Section 4.4 at the scale of one pair: \<open>get_better_solution\<close> returns its first argument
  when that is strictly fitter than the second, and the second otherwise, so a tie keeps
  the second. \<open>better x y\<close> reads: \<open>x\<close> is strictly fitter than \<open>y\<close>.
\<close>

definition replaces_on_improvement ::
  "('t solution \<Rightarrow> 't solution \<Rightarrow> bool) \<Rightarrow> ('g, 't) collaborators \<Rightarrow> bool" where
  "replaces_on_improvement better env \<longleftrightarrow>
     (\<forall>x y. get_better_solution env x y = (if better x y then x else y))"

text \<open>
  The contract as claim C8 and section 8 of the specification word it: the fitter of
  the two arguments and, when neither is strictly fitter, the first.
\<close>

definition better_first ::
  "('t solution \<Rightarrow> 't solution \<Rightarrow> bool) \<Rightarrow> ('g, 't) collaborators \<Rightarrow> bool" where
  "better_first better env \<longleftrightarrow>
     (\<forall>x y. get_better_solution env x y = (if better y x then y else x))"

text \<open>
  One iteration appended a candidate at \<open>pos\<close> to \<open>pop_new\<close> and left in slot \<open>idx\<close> the
  evaluated candidate if it is strictly fitter than the incumbent, the incumbent
  otherwise.
\<close>

definition candidate_merged ::
  "('t solution \<Rightarrow> 't solution \<Rightarrow> bool) \<Rightarrow> ('g, 't) collaborators \<Rightarrow> nat \<Rightarrow>
   't solution list \<Rightarrow> 't solution list \<Rightarrow> 't solution list \<Rightarrow> 't solution list \<Rightarrow> bool" where
  "candidate_merged better env idx ps pn ps' pn' \<longleftrightarrow>
     (\<exists>pos. pn' = pn @ [Solution pos None] \<and> idx < length ps \<and>
            ps' = ps[idx := (if better (Solution pos (Some (get_target_wrapper env pos))) (ps ! idx)
                             then Solution pos (Some (get_target_wrapper env pos))
                             else ps ! idx)])"

text \<open>Every member of a list of solutions lies within the bounds.\<close>

definition all_within :: "vec \<Rightarrow> vec \<Rightarrow> 't solution list \<Rightarrow> bool" where
  "all_within l u ps \<longleftrightarrow> list_all (\<lambda>s. in_bounds l u (position s)) ps"

text \<open>
  Section 4.2: \<open>amend_position\<close> returns a vector within the bounds it is given, whatever
  the position and the state of the generator.
\<close>

definition amend_within :: "('g, 't) collaborators \<Rightarrow> vec \<Rightarrow> vec \<Rightarrow> bool" where
  "amend_within env l u \<longleftrightarrow> (\<forall>x g. in_bounds l u (fst (amend_position env x l u g)))"


text \<open>
  Sections 4.1, 4.4, 4.5 and 6: the selecting collaborators return solutions at positions
  of their inputs, and the batch evaluation keeps the positions of its candidates.
\<close>

definition selects_positions :: "('g, 't) collaborators \<Rightarrow> bool" where
  "selects_positions env \<longleftrightarrow>
     (\<forall>x y. position (get_better_solution env x y) = position x \<or>
            position (get_better_solution env x y) = position y) \<and>
     (\<forall>ps k. position ` set (get_special_solutions env ps k) \<subseteq> position ` set ps) \<and>
     (\<forall>ps. position ` set (update_target_wrapper_population env ps) \<subseteq> position ` set ps) \<and>
     (\<forall>old new ps. greedy_selection_population env old new = Inr ps \<longrightarrow>
        position ` set ps \<subseteq> position ` set old \<union> position ` set new) \<and>
     (\<forall>ps n. position ` set (get_sorted_strim_population env ps n) \<subseteq> position ` set ps)"

text \<open>
  Section 4.5: \<open>get_sorted_strim_population\<close> returns the first \<open>k\<close> members of its argument
  in the order of their fitness \<open>fit\<close> (smaller is better), members of one fitness in the
  order of the argument.
\<close>

definition truncates_sorted ::
  "('t solution \<Rightarrow> real) \<Rightarrow> ('g, 't) collaborators \<Rightarrow> bool" where
  "truncates_sorted fit env \<longleftrightarrow>
     (\<forall>ps k. get_sorted_strim_population env ps k = take k (sort_key fit ps))"

text \<open>
  The invariants of the loops: the bounds are the ones the call started with, and the
  lists the loop works on (\<open>self.pop\<close> and \<open>pop_new\<close>, or \<open>leaders\<close> and \<open>leaders_new\<close>) lie
  within them.
\<close>

definition loop_within ::
  "vec \<Rightarrow> vec \<Rightarrow> ('g, 't) optimizer \<times> 't solution list \<Rightarrow> bool" where
  "loop_within l u stp \<longleftrightarrow>
     lb (fst stp) = l \<and> ub (fst stp) = u \<and>
     all_within l u (pop (fst stp)) \<and> all_within l u (snd stp)"

definition walk_within ::
  "vec \<Rightarrow> vec \<Rightarrow> ('g, 't) optimizer \<times> 't solution list \<times> 't solution list \<Rightarrow> bool" where
  "walk_within l u stp \<longleftrightarrow>
     lb (fst stp) = l \<and> ub (fst stp) = u \<and>
     all_within l u (pop (fst stp)) \<and>
     all_within l u (fst (snd stp)) \<and> all_within l u (snd (snd stp))"



section \<open>Basic facts\<close>

lemma bind_err_Inl [simp]: "bind_err (Inl e) f = Inl e"
  by (simp add: bind_err_def)

lemma bind_err_Inr [simp]: "bind_err (Inr x) f = f x"
  by (simp add: bind_err_def)

lemma bind_err_eq_Inr: "bind_err m f = Inr y \<longleftrightarrow> (\<exists>x. m = Inr x \<and> f x = Inr y)"
  by (cases m) simp_all

text \<open>A property that every successful iteration keeps holds after the loop.\<close>

lemma for_range_invariant:
  assumes step: "\<And>i st st'. P st \<Longrightarrow> body i st = Inr st' \<Longrightarrow> P st'"
    and init: "P st"
    and run: "for_range body is st = Inr st'"
  shows "P st'"
  using init run
proof (induction "is" arbitrary: st)
  case Nil
  then show ?case by simp
next
  case (Cons i "is")
  from Cons.prems(2) obtain st1 where b: "body i st = Inr st1" and r: "for_range body is st1 = Inr st'"
    by (auto split: sum.splits)
  from step [OF Cons.prems(1) b] have "P st1" .
  with r show ?case by (rule Cons.IH [rotated])
qed

section \<open>Unfolding the model on concrete data\<close>

lemmas model_defs =
  BaseGWO_evolve_def BaseGWO_step_def RW_GWO_evolve_def RW_GWO_step_def RW_GWO_walk_def
  GWO_WOA_M_evolve_def GWO_WOA_M_step_def GWO_WOA_M_explore_def
  GWO_WOA_O_evolve_def GWO_WOA_O_step_def GWO_WOA_O_explore_def
  batch_merge_def amend_and_select_def leaders_mean_def attract_def attract_scaled_def
  linear_decay_def woa_a2_def woa_o_decay_def py_index_def
  np_binop_def np_add_def np_sub_def np_scale_def np_abs_def np_div_def

lemmas ref_defs =
  ref_env_def tape_draw_def tape_uniform_between_def tape_vector_def fitness_def resample_def
  ref_amend_position_def ref_create_solution_def sum_squares_def ref_update_target_def
  ref_best_def ref_better_def ref_greedy_def demo_pop_def demo_self_def

section \<open>What an iteration and a call leave unchanged\<close>

lemma same_frame_refl [simp]: "same_frame s s"
  by (simp add: same_frame_def)

lemma same_frame_trans: "same_frame s s1 \<Longrightarrow> same_frame s1 s2 \<Longrightarrow> same_frame s s2"
  by (simp add: same_frame_def)

lemma same_frame_updates [simp]:
  "same_frame s (s'\<lparr>rng := g\<rparr>) = same_frame s s'"
  "same_frame s (s'\<lparr>pop := ps\<rparr>) = same_frame s s'"
  by (simp_all add: same_frame_def)

lemma amend_and_select_cases:
  assumes "amend_and_select env pos g idx (self, pop_new) = Inr (self', pop_new')"
  shows "\<exists>cand g'. amend_position env pos (lb self) (ub self) g = (cand, g') \<and>
           pop_new' = pop_new @ [Solution cand None] \<and>
           (if mode_available self then self' = self\<lparr>rng := g'\<rparr>
            else idx < length (pop self) \<and>
                 self' = self\<lparr>pop := (pop self)[idx := get_better_solution env
                                  (Solution cand (Some (get_target_wrapper env cand))) (pop self ! idx)],
                              rng := g'\<rparr>)"
  using assms
  by (auto simp: amend_and_select_def py_index_def split: prod.splits if_splits)

lemma BaseGWO_step_shape:
  assumes "BaseGWO_step env a list_best idx st = Inr st'"
  shows "\<exists>pos g. amend_and_select env pos g idx st = Inr st'"
  using assms
  by (auto simp: BaseGWO_step_def Let_def bind_err_eq_Inr split: prod.splits)

lemma RW_GWO_step_shape:
  assumes "RW_GWO_step env b leaders idx st = Inr st'"
  shows "\<exists>pos g. amend_and_select env pos g idx st = Inr st'"
  using assms
  by (auto simp: RW_GWO_step_def Let_def bind_err_eq_Inr split: prod.splits)

lemma GWO_WOA_M_step_shape:
  assumes "GWO_WOA_M_step env a a2 list_best idx (self, pop_new) = Inr st'"
  shows "\<exists>st1. batch_merge env st1 = Inr st' \<and>
           ((\<exists>g. st1 = (self\<lparr>rng := g\<rparr>, pop_new)) \<or>
            (\<exists>pos g. amend_and_select env pos g idx (self, pop_new) = Inr st1))"
  using assms
  by (auto simp: GWO_WOA_M_step_def Let_def bind_err_eq_Inr split: prod.splits if_splits) blast+

lemma GWO_WOA_O_step_shape:
  assumes "GWO_WOA_O_step env a list_best idx (self, pop_new) = Inr st'"
  shows "\<exists>st1. batch_merge env st1 = Inr st' \<and>
           ((\<exists>g. st1 = (self\<lparr>rng := g\<rparr>, pop_new)) \<or>
            (\<exists>pos g. amend_and_select env pos g idx (self, pop_new) = Inr st1))"
  using assms
  by (auto simp: GWO_WOA_O_step_def Let_def bind_err_eq_Inr split: prod.splits if_splits) blast+

lemma RW_GWO_walk_shape:
  assumes "RW_GWO_walk env a i (self, leaders, leaders_new) = Inr (self', leaders', leaders_new')"
  shows "\<exists>pos g cand g'. i < length leaders \<and>
           amend_position env pos (lb self) (ub self) g = (cand, g') \<and>
           self' = self\<lparr>rng := g'\<rparr> \<and>
           leaders_new' = leaders_new @ [Solution cand None] \<and>
           leaders' = (if mode_available self then leaders
                       else leaders[i := get_better_solution env
                              (Solution cand (Some (get_target_wrapper env cand))) (leaders ! i)])"
proof -
  from assms have i: "i < length leaders"
    by (auto simp: RW_GWO_walk_def py_index_def split: if_splits)
  obtain cs g1 where c: "standard_cauchy env (n_dims self) (rng self) = (cs, g1)"
    by (cases "standard_cauchy env (n_dims self) (rng self)")
  from assms i c obtain pos where p: "np_add (position (leaders ! i)) (np_scale a cs) = Inr pos"
    by (auto simp: RW_GWO_walk_def py_index_def bind_err_eq_Inr)
  obtain cand g2 where am: "amend_position env pos (lb self) (ub self) g1 = (cand, g2)"
    by (cases "amend_position env pos (lb self) (ub self) g1")
  from assms i c p am show ?thesis
    by (auto simp: RW_GWO_walk_def py_index_def split: if_splits)
qed


lemma amend_and_select_frame:
  assumes "amend_and_select env pos g idx (self, pop_new) = Inr (self', pop_new')"
  shows "same_frame self self'"
  using amend_and_select_cases [OF assms] by (auto split: if_splits)

lemma batch_merge_cases:
  assumes "batch_merge env (self, pop_new) = Inr (self', pop_new')"
  shows "if mode_available self then
           pop_new' = update_target_wrapper_population env pop_new \<and>
           (\<exists>ps. greedy_selection_population env (pop self) pop_new' = Inr ps \<and>
                 self' = self\<lparr>pop := ps\<rparr>)
         else self' = self \<and> pop_new' = pop_new"
  using assms by (auto simp: batch_merge_def Let_def bind_err_eq_Inr split: if_splits)

lemma batch_merge_frame:
  assumes "batch_merge env (self, pop_new) = Inr (self', pop_new')"
  shows "same_frame self self'"
  using batch_merge_cases [OF assms] by (auto split: if_splits)

lemma BaseGWO_step_frame:
  assumes "BaseGWO_step env a list_best idx (self, pop_new) = Inr (self', pop_new')"
  shows "same_frame self self'"
  using BaseGWO_step_shape [OF assms] by (auto dest: amend_and_select_frame)

lemma RW_GWO_step_frame:
  assumes "RW_GWO_step env b leaders idx (self, pop_new) = Inr (self', pop_new')"
  shows "same_frame self self'"
  using RW_GWO_step_shape [OF assms] by (auto dest: amend_and_select_frame)

lemma RW_GWO_walk_frame:
  assumes "RW_GWO_walk env a i (self, leaders, leaders_new) = Inr (self', leaders', leaders_new')"
  shows "same_frame self self'"
  using RW_GWO_walk_shape [OF assms] by auto

lemma hybrid_frame:
  assumes "batch_merge env st1 = Inr st'"
    and "(\<exists>g. st1 = (self\<lparr>rng := g\<rparr>, pop_new)) \<or>
         (\<exists>pos g. amend_and_select env pos g idx (self, pop_new) = Inr st1)"
  shows "same_frame self (fst st')"
proof -
  obtain s1 p1 where st1: "st1 = (s1, p1)" by (cases st1)
  obtain s2 p2 where st2: "st' = (s2, p2)" by (cases st')
  from assms(2) st1 have "same_frame self s1"
    by (auto dest: amend_and_select_frame)
  moreover from assms(1) st1 st2 have "same_frame s1 s2" by (auto dest: batch_merge_frame)
  ultimately have "same_frame self s2" by (rule same_frame_trans)
  then show ?thesis using st2 by simp
qed

lemma GWO_WOA_M_step_frame:
  assumes "GWO_WOA_M_step env a a2 list_best idx (self, pop_new) = Inr st'"
  shows "same_frame self (fst st')"
proof -
  from GWO_WOA_M_step_shape [OF assms] obtain st1 where
    "batch_merge env st1 = Inr st'"
    "(\<exists>g. st1 = (self\<lparr>rng := g\<rparr>, pop_new)) \<or>
     (\<exists>pos g. amend_and_select env pos g idx (self, pop_new) = Inr st1)"
    by (elim exE conjE)
  then show ?thesis by (rule hybrid_frame)
qed

lemma GWO_WOA_O_step_frame:
  assumes "GWO_WOA_O_step env a list_best idx (self, pop_new) = Inr st'"
  shows "same_frame self (fst st')"
proof -
  from GWO_WOA_O_step_shape [OF assms] obtain st1 where
    "batch_merge env st1 = Inr st'"
    "(\<exists>g. st1 = (self\<lparr>rng := g\<rparr>, pop_new)) \<or>
     (\<exists>pos g. amend_and_select env pos g idx (self, pop_new) = Inr st1)"
    by (elim exE conjE)
  then show ?thesis by (rule hybrid_frame)
qed

lemma BaseGWO_loop_frame:
  assumes "for_range (BaseGWO_step env a list_best) is (self, pop_new) = Inr st'"
  shows "same_frame self (fst st')"
proof (rule for_range_invariant [where P = "\<lambda>st. same_frame self (fst st)", OF _ _ assms])
  fix i and st st' :: "('a, 'b) optimizer \<times> 'b solution list"
  assume "same_frame self (fst st)" and "BaseGWO_step env a list_best i st = Inr st'"
  then show "same_frame self (fst st')"
    by (cases st, cases st') (auto dest!: BaseGWO_step_frame elim: same_frame_trans)
qed simp

lemma RW_GWO_loop_frame:
  assumes "for_range (RW_GWO_step env b leaders) is (self, pop_new) = Inr st'"
  shows "same_frame self (fst st')"
proof (rule for_range_invariant [where P = "\<lambda>st. same_frame self (fst st)", OF _ _ assms])
  fix i and st st' :: "('a, 'b) optimizer \<times> 'b solution list"
  assume "same_frame self (fst st)" and "RW_GWO_step env b leaders i st = Inr st'"
  then show "same_frame self (fst st')"
    by (cases st, cases st') (auto dest!: RW_GWO_step_frame elim: same_frame_trans)
qed simp

lemma RW_GWO_walk_loop_frame:
  assumes "for_range (RW_GWO_walk env a) is (self, leaders, leaders_new) = Inr st'"
  shows "same_frame self (fst st')"
proof (rule for_range_invariant [where P = "\<lambda>st. same_frame self (fst st)", OF _ _ assms])
  fix i and st st' :: "('a, 'b) optimizer \<times> 'b solution list \<times> 'b solution list"
  assume "same_frame self (fst st)" and "RW_GWO_walk env a i st = Inr st'"
  then show "same_frame self (fst st')"
    by (cases st, cases st') (auto dest!: RW_GWO_walk_frame elim: same_frame_trans)
qed simp

lemma GWO_WOA_M_loop_frame:
  assumes "for_range (GWO_WOA_M_step env a a2 list_best) is (self, pop_new) = Inr st'"
  shows "same_frame self (fst st')"
proof (rule for_range_invariant [where P = "\<lambda>st. same_frame self (fst st)", OF _ _ assms])
  fix i and st st' :: "('a, 'b) optimizer \<times> 'b solution list"
  assume "same_frame self (fst st)" and "GWO_WOA_M_step env a a2 list_best i st = Inr st'"
  then show "same_frame self (fst st')"
    by (cases st) (auto dest!: GWO_WOA_M_step_frame elim: same_frame_trans)
qed simp

lemma GWO_WOA_O_loop_frame:
  assumes "for_range (GWO_WOA_O_step env a list_best) is (self, pop_new) = Inr st'"
  shows "same_frame self (fst st')"
proof (rule for_range_invariant [where P = "\<lambda>st. same_frame self (fst st)", OF _ _ assms])
  fix i and st st' :: "('a, 'b) optimizer \<times> 'b solution list"
  assume "same_frame self (fst st)" and "GWO_WOA_O_step env a list_best i st = Inr st'"
  then show "same_frame self (fst st')"
    by (cases st) (auto dest!: GWO_WOA_O_step_frame elim: same_frame_trans)
qed simp



lemma BaseGWO_evolve_cases:
  assumes "BaseGWO_evolve env self t = Inr self'"
  shows "\<exists>a self1 pop_new pop_new'.
           linear_decay t (epoch self) = Inr a \<and>
           for_range (BaseGWO_step env a (get_special_solutions env (pop self) 3))
             [0 ..< pop_size self] (self, []) = Inr (self1, pop_new) \<and>
           batch_merge env (self1, pop_new) = Inr (self', pop_new')"
proof -
  from assms obtain a where a: "linear_decay t (epoch self) = Inr a"
    by (cases "linear_decay t (epoch self)") (simp_all add: BaseGWO_evolve_def)
  let ?loop = "for_range (BaseGWO_step env a (get_special_solutions env (pop self) 3))
             [0 ..< pop_size self] (self, [])"
  from assms a obtain st where st: "?loop = Inr st"
    by (cases ?loop) (simp_all add: BaseGWO_evolve_def Let_def)
  obtain self1 pop_new where sp: "st = (self1, pop_new)" by (cases st)
  from assms a st sp have "\<exists>pop_new'. batch_merge env (self1, pop_new) = Inr (self', pop_new')"
    by (auto simp: BaseGWO_evolve_def batch_merge_def Let_def bind_err_eq_Inr split: if_splits)
  with a st sp show ?thesis by blast
qed

lemma BaseGWO_evolve_frame:
  assumes "BaseGWO_evolve env self t = Inr self'"
  shows "same_frame self self'"
proof -
  from BaseGWO_evolve_cases [OF assms] obtain a self1 pop_new pop_new' where
    l: "for_range (BaseGWO_step env a (get_special_solutions env (pop self) 3))
             [0 ..< pop_size self] (self, []) = Inr (self1, pop_new)"
    and r: "batch_merge env (self1, pop_new) = Inr (self', pop_new')"
    by (elim exE conjE)
  from BaseGWO_loop_frame [OF l] have "same_frame self self1" by simp
  moreover from r have "same_frame self1 self'" by (rule batch_merge_frame)
  ultimately show ?thesis by (rule same_frame_trans)
qed

text \<open>
  The leaders that the second loop of \<open>RW_GWO\<close> works with: the walked list, merged with
  the evaluated walk candidates in a batch mode.
\<close>

lemma RW_GWO_evolve_cases:
  assumes "RW_GWO_evolve env self t = Inr self'"
  shows "\<exists>a self1 leaders1 leaders_new leaders2 self2 pop_new self3 pop_new'.
           linear_decay t (epoch self) = Inr a \<and>
           for_range (RW_GWO_walk env a) [0 ..< length (get_special_solutions env (pop self) 3)]
             (self, get_special_solutions env (pop self) 3, []) = Inr (self1, leaders1, leaders_new) \<and>
           (if mode_available self1 then
              greedy_selection_population env leaders1
                (update_target_wrapper_population env leaders_new) = Inr leaders2
            else leaders2 = leaders1) \<and>
           for_range (RW_GWO_step env a leaders2) [0 ..< pop_size self1] (self1, []) = Inr (self2, pop_new) \<and>
           batch_merge env (self2, pop_new) = Inr (self3, pop_new') \<and>
           self' = self3\<lparr>pop := get_sorted_strim_population env (pop self3 @ leaders2) (pop_size self3)\<rparr>"
proof -
  from assms obtain a where a: "linear_decay t (epoch self) = Inr a"
    by (cases "linear_decay t (epoch self)") (simp_all add: RW_GWO_evolve_def)
  let ?walk = "for_range (RW_GWO_walk env a) [0 ..< length (get_special_solutions env (pop self) 3)]
             (self, get_special_solutions env (pop self) 3, [])"
  from assms a obtain st where st: "?walk = Inr st"
    by (cases ?walk) (simp_all add: RW_GWO_evolve_def Let_def)
  obtain self1 leaders1 leaders_new where sp: "st = (self1, leaders1, leaders_new)" by (cases st)
  let ?merge1 = "if mode_available self1 then
                   greedy_selection_population env leaders1
                     (update_target_wrapper_population env leaders_new)
                 else Inr leaders1"
  from assms a st sp obtain leaders2 where l2: "?merge1 = Inr leaders2"
    by (cases ?merge1) (simp_all add: RW_GWO_evolve_def Let_def)
  let ?loop = "for_range (RW_GWO_step env a leaders2) [0 ..< pop_size self1] (self1, [])"
  from assms a st sp l2 obtain st2 where st2: "?loop = Inr st2"
    by (cases ?loop) (simp_all add: RW_GWO_evolve_def Let_def)
  obtain self2 pop_new where sp2: "st2 = (self2, pop_new)" by (cases st2)
  let ?merge2 = "if mode_available self2 then
                   bind_err (greedy_selection_population env (pop self2)
                               (update_target_wrapper_population env pop_new))
                     (\<lambda>ps. Inr (self2\<lparr>pop := ps\<rparr>))
                 else Inr self2"
  from assms a st sp l2 st2 sp2 obtain self3 where s3: "?merge2 = Inr self3"
    by (cases ?merge2) (simp_all add: RW_GWO_evolve_def Let_def)
  from s3 have m: "\<exists>pop_new'. batch_merge env (self2, pop_new) = Inr (self3, pop_new')"
    by (auto simp: batch_merge_def Let_def bind_err_eq_Inr split: if_splits)
  from assms a st sp l2 st2 sp2 s3 have
    r: "self' = self3\<lparr>pop := get_sorted_strim_population env (pop self3 @ leaders2) (pop_size self3)\<rparr>"
    by (simp add: RW_GWO_evolve_def Let_def)
  from l2 have "if mode_available self1 then
              greedy_selection_population env leaders1
                (update_target_wrapper_population env leaders_new) = Inr leaders2
            else leaders2 = leaders1"
    by (simp split: if_splits)
  with a st sp st2 sp2 m r show ?thesis by blast
qed

lemma RW_GWO_evolve_frame:
  assumes "RW_GWO_evolve env self t = Inr self'"
  shows "same_frame self self'"
proof -
  from RW_GWO_evolve_cases [OF assms] obtain a self1 leaders1 leaders_new leaders2 self2 pop_new
      self3 pop_new'
    where w: "for_range (RW_GWO_walk env a) [0 ..< length (get_special_solutions env (pop self) 3)]
             (self, get_special_solutions env (pop self) 3, []) = Inr (self1, leaders1, leaders_new)"
      and l: "for_range (RW_GWO_step env a leaders2) [0 ..< pop_size self1] (self1, []) = Inr (self2, pop_new)"
      and s3: "batch_merge env (self2, pop_new) = Inr (self3, pop_new')"
      and r: "self' = self3\<lparr>pop := get_sorted_strim_population env (pop self3 @ leaders2) (pop_size self3)\<rparr>"
    by (elim exE conjE)
  from RW_GWO_walk_loop_frame [OF w] have "same_frame self self1" by simp
  moreover from RW_GWO_loop_frame [OF l] have "same_frame self1 self2" by simp
  ultimately have "same_frame self self2" by (rule same_frame_trans)
  moreover from s3 have "same_frame self2 self3" by (rule batch_merge_frame)
  ultimately have "same_frame self self3" by (rule same_frame_trans)
  with r show ?thesis by simp
qed

lemma GWO_WOA_M_evolve_cases:
  assumes "GWO_WOA_M_evolve env self t = Inr self'"
  shows "\<exists>a a2 pop_new.
           linear_decay t (epoch self) = Inr a \<and> woa_a2 t (epoch self) = Inr a2 \<and>
           for_range (GWO_WOA_M_step env a a2 (get_special_solutions env (pop self) 3))
             [0 ..< pop_size self] (self, []) = Inr (self', pop_new)"
proof -
  from assms obtain a where a: "linear_decay t (epoch self) = Inr a"
    by (cases "linear_decay t (epoch self)") (simp_all add: GWO_WOA_M_evolve_def)
  from assms a obtain a2 where a2: "woa_a2 t (epoch self) = Inr a2"
    by (cases "woa_a2 t (epoch self)") (simp_all add: GWO_WOA_M_evolve_def)
  let ?loop = "for_range (GWO_WOA_M_step env a a2 (get_special_solutions env (pop self) 3))
             [0 ..< pop_size self] (self, [])"
  from assms a a2 obtain st where st: "?loop = Inr st"
    by (cases ?loop) (simp_all add: GWO_WOA_M_evolve_def Let_def)
  obtain self1 pop_new where sp: "st = (self1, pop_new)" by (cases st)
  from assms a a2 st sp show ?thesis
    by (simp add: GWO_WOA_M_evolve_def Let_def)
qed

lemma GWO_WOA_O_evolve_cases:
  assumes "GWO_WOA_O_evolve env self t = Inr self'"
  shows "\<exists>a pop_new.
           woa_o_decay t (epoch self) = Inr a \<and>
           for_range (GWO_WOA_O_step env a (get_special_solutions env (pop self) 3))
             [0 ..< pop_size self] (self, []) = Inr (self', pop_new)"
proof -
  from assms obtain a where a: "woa_o_decay t (epoch self) = Inr a"
    by (cases "woa_o_decay t (epoch self)") (simp_all add: GWO_WOA_O_evolve_def)
  let ?loop = "for_range (GWO_WOA_O_step env a (get_special_solutions env (pop self) 3))
             [0 ..< pop_size self] (self, [])"
  from assms a obtain st where st: "?loop = Inr st"
    by (cases ?loop) (simp_all add: GWO_WOA_O_evolve_def Let_def)
  obtain self1 pop_new where sp: "st = (self1, pop_new)" by (cases st)
  from assms a st sp show ?thesis
    by (simp add: GWO_WOA_O_evolve_def Let_def)
qed

lemma GWO_WOA_M_evolve_frame:
  assumes "GWO_WOA_M_evolve env self t = Inr self'"
  shows "same_frame self self'"
  using GWO_WOA_M_evolve_cases [OF assms] by (auto dest: GWO_WOA_M_loop_frame)

lemma GWO_WOA_O_evolve_frame:
  assumes "GWO_WOA_O_evolve env self t = Inr self'"
  shows "same_frame self self'"
  using GWO_WOA_O_evolve_cases [OF assms] by (auto dest: GWO_WOA_O_loop_frame)

lemma evolve_frame:
  assumes "evolve strat env self t = Inr self'"
  shows "same_frame self self'"
  using assms
  by (cases strat)
    (simp_all add: BaseGWO_evolve_frame RW_GWO_evolve_frame GWO_WOA_M_evolve_frame
      GWO_WOA_O_evolve_frame)

section \<open>The code computes the formulas of the specification\<close>

lemma length_spec_X [simp]: "length (spec_X center A C ref x) = length x"
  by (simp add: spec_X_def)

lemma length_spec_mean3 [simp]: "length (spec_mean3 X1 X2 X3) = length X1"
  by (simp add: spec_mean3_def)

lemma np_sub_same_length:
  "length xs = length ys \<Longrightarrow> np_sub xs ys = Inr (map (\<lambda>j. xs ! j - ys ! j) [0 ..< length ys])"
  by (auto simp: np_sub_def np_binop_def intro!: nth_equalityI)

lemma np_add_same_length:
  "length xs = length ys \<Longrightarrow> np_add xs ys = Inr (map (\<lambda>j. xs ! j + ys ! j) [0 ..< length ys])"
  by (auto simp: np_add_def np_binop_def intro!: nth_equalityI)

lemma attract_spec:
  assumes "length center = length x" and "length ref = length x"
  shows "attract center A C ref x = Inr (spec_X center A C ref x)"
  using assms
  by (simp add: attract_def np_sub_same_length np_scale_def np_abs_def spec_X_def)


lemma leaders_mean_spec:
  assumes "2 < length leaders" and "idx < length ps"
    and "length (position (leaders ! 0)) = length (position (ps ! idx))"
    and "length (position (leaders ! 1)) = length (position (ps ! idx))"
    and "length (position (leaders ! 2)) = length (position (ps ! idx))"
    and "length (ref_of (position (leaders ! 0))) = length (position (ps ! idx))"
    and "length (ref_of (position (leaders ! 1))) = length (position (ps ! idx))"
    and "length (ref_of (position (leaders ! 2))) = length (position (ps ! idx))"
  shows "leaders_mean leaders ref_of (A1, C1) (A2, C2) (A3, C3) ps idx =
         Inr (spec_mean3
                (spec_X (position (leaders ! 0)) A1 C1 (ref_of (position (leaders ! 0))) (position (ps ! idx)))
                (spec_X (position (leaders ! 1)) A2 C2 (ref_of (position (leaders ! 1))) (position (ps ! idx)))
                (spec_X (position (leaders ! 2)) A3 C3 (ref_of (position (leaders ! 2))) (position (ps ! idx))))"
proof -
  from assms(1) have "leaders \<noteq> []" "Suc 0 < length leaders" by auto
  with assms show ?thesis
    by (simp add: leaders_mean_def py_index_def attract_spec np_add_same_length np_div_def
        spec_mean3_def)
qed


lemma amend_and_select_eq:
  assumes "amend_position env pos (lb self) (ub self) g = (pos_new, g')" and "idx < length (pop self)"
  shows "amend_and_select env pos g idx (self, pop_new) =
         Inr (if mode_available self then self\<lparr>rng := g'\<rparr>
              else self\<lparr>pop := (pop self)[idx := get_better_solution env
                      (Solution pos_new (Some (get_target_wrapper env pos_new))) (pop self ! idx)],
                   rng := g'\<rparr>,
              pop_new @ [Solution pos_new None])"
  using assms by (simp add: amend_and_select_def py_index_def)

section \<open>A loop over the population in closed form\<close>

lemma spec_candidates_length:
  "spec_candidates cand xs g = (cands, g') \<Longrightarrow> length cands = length xs"
  by (induction xs arbitrary: g cands) (auto split: prod.splits)

text \<open>
  A loop whose iteration \<open>idx\<close> reads slot \<open>idx\<close> of a list, appends a candidate for it and,
  outside the batch modes, stores the selection in the slot: after the iterations over
  the slots of \<open>rest\<close> the list holds the selections, slot by slot, and the candidates are
  the ones of \<open>spec_candidates\<close>. The state is built by \<open>mk\<close> from the list, the generator
  and the list of candidates.
\<close>

lemma candidates_loop:
  fixes mk :: "'t solution list \<Rightarrow> 'g \<Rightarrow> 't solution list \<Rightarrow> 's"
  assumes step: "\<And>idx ps g pn c g1. idx < length ps \<Longrightarrow> ok (ps ! idx) \<Longrightarrow>
      cand (position (ps ! idx)) g = (c, g1) \<Longrightarrow>
      body idx (mk ps g pn) =
        Inr (mk (if batch then ps else ps[idx := sel c (ps ! idx)]) g1 (pn @ [Solution c None]))"
    and ok: "list_all ok rest"
    and run: "spec_candidates cand (map position rest) g = (cands, g')"
  shows "for_range body [length pre ..< length pre + length rest] (mk (pre @ rest) g pn) =
      Inr (mk (pre @ (if batch then rest else map2 sel cands rest)) g'
              (pn @ map (\<lambda>c. Solution c None) cands))"
  using ok run
proof (induction rest arbitrary: pre g pn cands)
  case Nil
  then show ?case by simp
next
  case (Cons x xs)
  obtain c g1 where c: "cand (position x) g = (c, g1)" by (cases "cand (position x) g")
  obtain cs g2 where cs: "spec_candidates cand (map position xs) g1 = (cs, g2)"
    by (cases "spec_candidates cand (map position xs) g1")
  from Cons.prems(2) c cs have cands: "cands = c # cs" and g': "g2 = g'" by simp_all
  note cs = cs [unfolded g']
  from Cons.prems(1) have okx: "ok x" and okxs: "list_all ok xs" by simp_all
  let ?y = "if batch then x else sel c x"
  have "[length pre ..< length pre + Suc (length xs)] =
        length pre # [Suc (length pre) ..< length pre + Suc (length xs)]"
    by (rule upt_conv_Cons) simp
  then have upt: "[length pre ..< length pre + length (x # xs)] =
             length pre # [length (pre @ [?y]) ..< length (pre @ [?y]) + length xs]"
    by simp
  have "body (length pre) (mk (pre @ x # xs) g pn) =
        Inr (mk (if batch then pre @ x # xs
                 else (pre @ x # xs)[length pre := sel c ((pre @ x # xs) ! length pre)])
               g1 (pn @ [Solution c None]))"
    by (rule step) (simp_all add: okx c)
  then have first: "body (length pre) (mk (pre @ x # xs) g pn) =
        Inr (mk ((pre @ [?y]) @ xs) g1 (pn @ [Solution c None]))"
    by simp
  from Cons.IH [OF okxs cs, of "pre @ [?y]" "pn @ [Solution c None]"]
  have rest: "for_range body [length (pre @ [?y]) ..< length (pre @ [?y]) + length xs]
          (mk ((pre @ [?y]) @ xs) g1 (pn @ [Solution c None])) =
        Inr (mk ((pre @ [?y]) @ (if batch then xs else map2 sel cs xs)) g'
               ((pn @ [Solution c None]) @ map (\<lambda>c. Solution c None) cs))" .
  show ?case
    unfolding upt using first rest by (simp add: cands)
qed

text \<open>
  An iteration of the population loop of \<open>BaseGWO\<close> and of \<open>RW_GWO\<close> on positions of one
  length computes the candidate of the specification for slot \<open>idx\<close>.
\<close>

lemma three_leader_step:
  assumes n: "2 < length leaders"
    and l1: "length (position (leaders ! 0)) = n" and l2: "length (position (leaders ! 1)) = n"
    and l3: "length (position (leaders ! 2)) = n"
    and r1: "length (ref_of (position (leaders ! 0))) = n"
    and r2: "length (ref_of (position (leaders ! 1))) = n"
    and r3: "length (ref_of (position (leaders ! 2))) = n"
    and idx: "idx < length ps" and x: "length (position (ps ! idx)) = n"
    and c: "spec_candidate env a
              (position (leaders ! 0), ref_of (position (leaders ! 0)))
              (position (leaders ! 1), ref_of (position (leaders ! 1)))
              (position (leaders ! 2), ref_of (position (leaders ! 2)))
              (lb self) (ub self) (position (ps ! idx)) g = (c, g')"
    and draws: "uniform env g = (u1, g1)" "uniform env g1 = (u2, g2)" "uniform env g2 = (u3, g3)"
      "uniform env g3 = (u4, g4)" "uniform env g4 = (u5, g5)" "uniform env g5 = (u6, g6)"
  shows "bind_err (leaders_mean leaders ref_of (a * (2 * u1 - 1), 2 * u4) (a * (2 * u2 - 1), 2 * u5)
                     (a * (2 * u3 - 1), 2 * u6) ps idx)
           (\<lambda>pos_new. amend_and_select env pos_new g6 idx (self\<lparr>pop := ps, rng := g\<rparr>, pn)) =
         Inr (self\<lparr>pop := (if mode_available self then ps
                            else ps[idx := spec_select_slot env c (ps ! idx)]), rng := g'\<rparr>,
              pn @ [Solution c None])"
proof -
  let ?x = "position (ps ! idx)"
  let ?mean = "spec_mean3
      (spec_X (position (leaders ! 0)) (a * (2 * u1 - 1)) (2 * u4) (ref_of (position (leaders ! 0))) ?x)
      (spec_X (position (leaders ! 1)) (a * (2 * u2 - 1)) (2 * u5) (ref_of (position (leaders ! 1))) ?x)
      (spec_X (position (leaders ! 2)) (a * (2 * u3 - 1)) (2 * u6) (ref_of (position (leaders ! 2))) ?x)"
  have mean: "leaders_mean leaders ref_of (a * (2 * u1 - 1), 2 * u4) (a * (2 * u2 - 1), 2 * u5)
                (a * (2 * u3 - 1), 2 * u6) ps idx = Inr ?mean"
    using n idx l1 l2 l3 r1 r2 r3 x by (simp add: leaders_mean_spec)
  from c draws have am: "amend_position env ?mean (lb self) (ub self) g6 = (c, g')"
    by (simp add: spec_candidate_def)
  then have am': "amend_position env ?mean (lb (self\<lparr>pop := ps, rng := g\<rparr>))
      (ub (self\<lparr>pop := ps, rng := g\<rparr>)) g6 = (c, g')"
    by simp
  have i': "idx < length (pop (self\<lparr>pop := ps, rng := g\<rparr>))" using idx by simp
  show ?thesis
    unfolding mean bind_err_Inr amend_and_select_eq [OF am' i']
    by (simp add: spec_select_slot_def)
qed

lemma BaseGWO_step_candidate:
  assumes "2 < length leaders"
    and "length (position (leaders ! 0)) = n" and "length (position (leaders ! 1)) = n"
    and "length (position (leaders ! 2)) = n"
    and "idx < length ps" and "length (position (ps ! idx)) = n"
    and "spec_candidate env a
              (position (leaders ! 0), position (leaders ! 0))
              (position (leaders ! 1), position (leaders ! 1))
              (position (leaders ! 2), position (leaders ! 2))
              (lb self) (ub self) (position (ps ! idx)) g = (c, g')"
  shows "BaseGWO_step env a leaders idx (self\<lparr>pop := ps, rng := g\<rparr>, pn) =
         Inr (self\<lparr>pop := (if mode_available self then ps
                            else ps[idx := spec_select_slot env c (ps ! idx)]), rng := g'\<rparr>,
              pn @ [Solution c None])"
proof -
  obtain u1 g1 where d1: "uniform env g = (u1, g1)" by (cases "uniform env g")
  obtain u2 g2 where d2: "uniform env g1 = (u2, g2)" by (cases "uniform env g1")
  obtain u3 g3 where d3: "uniform env g2 = (u3, g3)" by (cases "uniform env g2")
  obtain u4 g4 where d4: "uniform env g3 = (u4, g4)" by (cases "uniform env g3")
  obtain u5 g5 where d5: "uniform env g4 = (u5, g5)" by (cases "uniform env g4")
  obtain u6 g6 where d6: "uniform env g5 = (u6, g6)" by (cases "uniform env g5")
  from three_leader_step [where ref_of = "\<lambda>L. L", OF assms(1-4) assms(2-4) assms(5-7) d1 d2 d3 d4 d5 d6]
  show ?thesis
    by (simp add: BaseGWO_step_def Let_def d1 d2 d3 d4 d5 d6)
qed

lemma RW_GWO_step_candidate:
  assumes "2 < length leaders"
    and "length (position (leaders ! 0)) = n" and "length (position (leaders ! 1)) = n"
    and "length (position (leaders ! 2)) = n"
    and "length (position (g_best self)) = n"
    and "idx < length ps" and "length (position (ps ! idx)) = n"
    and "spec_candidate env b
              (position (leaders ! 0), position (g_best self))
              (position (leaders ! 1), position (g_best self))
              (position (leaders ! 2), position (g_best self))
              (lb self) (ub self) (position (ps ! idx)) g = (c, g')"
  shows "RW_GWO_step env b leaders idx (self\<lparr>pop := ps, rng := g\<rparr>, pn) =
         Inr (self\<lparr>pop := (if mode_available self then ps
                            else ps[idx := spec_select_slot env c (ps ! idx)]), rng := g'\<rparr>,
              pn @ [Solution c None])"
proof -
  obtain u1 g1 where d1: "uniform env g = (u1, g1)" by (cases "uniform env g")
  obtain u2 g2 where d2: "uniform env g1 = (u2, g2)" by (cases "uniform env g1")
  obtain u3 g3 where d3: "uniform env g2 = (u3, g3)" by (cases "uniform env g2")
  obtain u4 g4 where d4: "uniform env g3 = (u4, g4)" by (cases "uniform env g3")
  obtain u5 g5 where d5: "uniform env g4 = (u5, g5)" by (cases "uniform env g4")
  obtain u6 g6 where d6: "uniform env g5 = (u6, g6)" by (cases "uniform env g5")
  from three_leader_step [where ref_of = "\<lambda>L. position (g_best self)",
      OF assms(1-4) assms(5) assms(5) assms(5) assms(6-8) d1 d2 d3 d4 d5 d6]
  show ?thesis
    by (simp add: RW_GWO_step_def Let_def d1 d2 d3 d4 d5 d6)
qed

text \<open>The population loops of \<open>BaseGWO\<close> and \<open>RW_GWO\<close> in closed form.\<close>

lemma BaseGWO_loop_candidates:
  fixes self :: "('g, 't) optimizer"
  assumes "2 < length leaders"
    and "length (position (leaders ! 0)) = n" and "length (position (leaders ! 1)) = n"
    and "length (position (leaders ! 2)) = n"
    and "list_all (\<lambda>s. length (position s) = n) (pop self)"
    and "spec_candidates (spec_candidate env a
              (position (leaders ! 0), position (leaders ! 0))
              (position (leaders ! 1), position (leaders ! 1))
              (position (leaders ! 2), position (leaders ! 2))
              (lb self) (ub self)) (map position (pop self)) (rng self) = (cands, g')"
  shows "for_range (BaseGWO_step env a leaders) [0 ..< length (pop self)] (self, []) =
         Inr (self\<lparr>pop := (if mode_available self then pop self
                            else map2 (spec_select_slot env) cands (pop self)), rng := g'\<rparr>,
              map (\<lambda>c. Solution c None) cands)"
proof -
  have "for_range (BaseGWO_step env a leaders)
          [length ([] :: 't solution list) ..< length ([] :: 't solution list) + length (pop self)]
          (self\<lparr>pop := [] @ pop self, rng := rng self\<rparr>, []) =
        Inr (self\<lparr>pop := [] @ (if mode_available self then pop self
                                  else map2 (spec_select_slot env) cands (pop self)), rng := g'\<rparr>,
             [] @ map (\<lambda>c. Solution c None) cands)"
  proof (rule candidates_loop [where mk = "\<lambda>ps g pn. (self\<lparr>pop := ps, rng := g\<rparr>, pn)"
        and ok = "\<lambda>s. length (position s) = n", OF _ assms(5,6)])
    fix idx and ps pn :: "'t solution list" and g g1 :: 'g and c
    assume "idx < length ps" "length (position (ps ! idx)) = n"
      "spec_candidate env a
              (position (leaders ! 0), position (leaders ! 0))
              (position (leaders ! 1), position (leaders ! 1))
              (position (leaders ! 2), position (leaders ! 2))
              (lb self) (ub self) (position (ps ! idx)) g = (c, g1)"
    from BaseGWO_step_candidate [OF assms(1-4) this]
    show "BaseGWO_step env a leaders idx (self\<lparr>pop := ps, rng := g\<rparr>, pn) =
         Inr (self\<lparr>pop := (if mode_available self then ps
                            else ps[idx := spec_select_slot env c (ps ! idx)]), rng := g1\<rparr>,
              pn @ [Solution c None])" .
  qed
  then show ?thesis by simp
qed

lemma RW_GWO_loop_candidates:
  fixes self :: "('g, 't) optimizer"
  assumes "2 < length leaders"
    and "length (position (leaders ! 0)) = n" and "length (position (leaders ! 1)) = n"
    and "length (position (leaders ! 2)) = n"
    and "length (position (g_best self)) = n"
    and "list_all (\<lambda>s. length (position s) = n) (pop self)"
    and "spec_candidates (spec_candidate env b
              (position (leaders ! 0), position (g_best self))
              (position (leaders ! 1), position (g_best self))
              (position (leaders ! 2), position (g_best self))
              (lb self) (ub self)) (map position (pop self)) (rng self) = (cands, g')"
  shows "for_range (RW_GWO_step env b leaders) [0 ..< length (pop self)] (self, []) =
         Inr (self\<lparr>pop := (if mode_available self then pop self
                            else map2 (spec_select_slot env) cands (pop self)), rng := g'\<rparr>,
              map (\<lambda>c. Solution c None) cands)"
proof -
  have "for_range (RW_GWO_step env b leaders)
          [length ([] :: 't solution list) ..< length ([] :: 't solution list) + length (pop self)]
          (self\<lparr>pop := [] @ pop self, rng := rng self\<rparr>, []) =
        Inr (self\<lparr>pop := [] @ (if mode_available self then pop self
                                  else map2 (spec_select_slot env) cands (pop self)), rng := g'\<rparr>,
             [] @ map (\<lambda>c. Solution c None) cands)"
  proof (rule candidates_loop [where mk = "\<lambda>ps g pn. (self\<lparr>pop := ps, rng := g\<rparr>, pn)"
        and ok = "\<lambda>s. length (position s) = n", OF _ assms(6,7)])
    fix idx and ps pn :: "'t solution list" and g g1 :: 'g and c
    assume "idx < length ps" "length (position (ps ! idx)) = n"
      "spec_candidate env b
              (position (leaders ! 0), position (g_best self))
              (position (leaders ! 1), position (g_best self))
              (position (leaders ! 2), position (g_best self))
              (lb self) (ub self) (position (ps ! idx)) g = (c, g1)"
    from RW_GWO_step_candidate [OF assms(1-5) this]
    show "RW_GWO_step env b leaders idx (self\<lparr>pop := ps, rng := g\<rparr>, pn) =
         Inr (self\<lparr>pop := (if mode_available self then ps
                            else ps[idx := spec_select_slot env c (ps ! idx)]), rng := g1\<rparr>,
              pn @ [Solution c None])" .
  qed
  then show ?thesis by simp
qed

text \<open>The block after a loop, on the state that the loop leaves.\<close>

lemma batch_merge_spec:
  "bind_err (batch_merge env
       (self\<lparr>pop := (if mode_available self then pop self
                      else map2 (spec_select_slot env) cands (pop self)), rng := g'\<rparr>,
        map (\<lambda>c. Solution c None) cands))
     (\<lambda>(s, pn). Inr s) =
   bind_err (spec_merge env (mode_available self) (pop self) cands)
     (\<lambda>ps. Inr (self\<lparr>pop := ps, rng := g'\<rparr>))"
  by (cases "greedy_selection_population env (pop self)
         (update_target_wrapper_population env (map (\<lambda>c. Solution c None) cands))")
    (simp_all add: batch_merge_def spec_merge_def Let_def)

section \<open>The decay coefficient at a single configured epoch\<close>

text \<open>
  Claim C2. With \<open>self.epoch = 1\<close> (a value \<open>__init__\<close> accepts: the validated range is
  \<open>[1, 100000]\<close>) the first statement of \<open>evolve\<close> divides by \<open>self.epoch - 1 = 0\<close> in
  \<open>BaseGWO\<close>, \<open>RW_GWO\<close> and \<open>GWO_WOA_M\<close>: the call raises \<open>ZeroDivisionError\<close> for every
  epoch index, population and collaborator; no guard exists. Only \<open>GWO_WOA_O\<close>, whose
  divisor is \<open>2 * self.epoch\<close>, computes its coefficient.
\<close>

theorem evolve_single_epoch_raises:
  "evolve BaseGWO env (self\<lparr>epoch := 1\<rparr>) t = Inl ZeroDivisionError \<and>
   evolve RW_GWO env (self\<lparr>epoch := 1\<rparr>) t = Inl ZeroDivisionError \<and>
   evolve GWO_WOA_M env (self\<lparr>epoch := 1\<rparr>) t = Inl ZeroDivisionError \<and>
   woa_o_decay t 1 = Inr (2 * (1 - real_of_int t / 2))"
  by (simp add: BaseGWO_evolve_def RW_GWO_evolve_def GWO_WOA_M_evolve_def linear_decay_def
      woa_o_decay_def)

section \<open>The global best\<close>

text \<open>
  Claim C10. For every strategy and both evaluation modes, a call of \<open>evolve\<close> that
  returns leaves the global best as it was: \<open>self.g_best\<close> is read, never assigned.
\<close>

theorem evolve_keeps_global_best:
  assumes "evolve strat env self t = Inr self'"
  shows "g_best self' = g_best self"
  using evolve_frame [OF assms] by (simp add: same_frame_def)

theorem evolve_keeps_global_best_witness:
  "evolve RW_GWO (ref_env tape_half) (demo_self True) 0 =
     Inr ((demo_self True)\<lparr>pop := [Solution [1] (Some 1), Solution [1] (Some 1)] @
                                   replicate 8 (Solution [2] (Some 4)), rng := 76\<rparr>) \<and>
   g_best ((demo_self True)\<lparr>pop := [Solution [1] (Some 1), Solution [1] (Some 1)] @
                                   replicate 8 (Solution [2] (Some 4)), rng := 76\<rparr>) = g_best (demo_self True)"
proof -
  have run: "evolve RW_GWO (ref_env tape_half) (demo_self True) 0 =
     Inr ((demo_self True)\<lparr>pop := [Solution [1] (Some 1), Solution [1] (Some 1)] @
                                   replicate 8 (Solution [2] (Some 4)), rng := 76\<rparr>)"
    by (simp add: model_defs ref_defs tape_half_def upt_rec eval_nat_numeral)
  from evolve_keeps_global_best [OF run] run show ?thesis
    by (simp add: demo_self_def)
qed

section \<open>The discarded branch of the hybrids\<close>

lemma GWO_WOA_M_explore_independent:
  "GWO_WOA_M_explore (env\<lparr>amend_position := am, get_target_wrapper := gt, get_better_solution := gb,
        update_target_wrapper_population := ut, greedy_selection_population := gr\<rparr>) self A C idx g =
   GWO_WOA_M_explore env self A C idx g"
  by (simp add: GWO_WOA_M_explore_def)

lemma GWO_WOA_O_explore_independent:
  "GWO_WOA_O_explore (env\<lparr>amend_position := am, get_target_wrapper := gt, get_better_solution := gb,
        update_target_wrapper_population := ut, greedy_selection_population := gr\<rparr>) self lbst A C r3 w b l C1 idx g =
   GWO_WOA_O_explore env self lbst A C r3 w b l C1 idx g"
  by (simp add: GWO_WOA_O_explore_def)

lemma GWO_WOA_M_step_discards:
  assumes "\<not> mode_available self" and "GWO_WOA_M_p env (rng self) < 1 / 2"
  shows "GWO_WOA_M_step (env\<lparr>amend_position := am, get_target_wrapper := gt, get_better_solution := gb,
        update_target_wrapper_population := ut, greedy_selection_population := gr\<rparr>)
           a a2 list_best idx (self, pop_new) =
         GWO_WOA_M_step env a a2 list_best idx (self, pop_new)"
    and "GWO_WOA_M_step env a a2 list_best idx (self, pop_new) = Inr (self', pop_new') \<Longrightarrow>
           pop self' = pop self \<and> pop_new' = pop_new \<and> self' = self\<lparr>rng := rng self'\<rparr>"
  using assms
  by (auto simp: GWO_WOA_M_step_def GWO_WOA_M_p_def Let_def split_beta batch_merge_def
      GWO_WOA_M_explore_independent bind_err_def split: sum.splits)

lemma GWO_WOA_O_step_discards:
  assumes "\<not> mode_available self" and "GWO_WOA_O_p env (rng self) < 1 / 2"
  shows "GWO_WOA_O_step (env\<lparr>amend_position := am, get_target_wrapper := gt, get_better_solution := gb,
        update_target_wrapper_population := ut, greedy_selection_population := gr\<rparr>)
           a list_best idx (self, pop_new) =
         GWO_WOA_O_step env a list_best idx (self, pop_new)"
    and "GWO_WOA_O_step env a list_best idx (self, pop_new) = Inr (self', pop_new') \<Longrightarrow>
           pop self' = pop self \<and> pop_new' = pop_new \<and> self' = self\<lparr>rng := rng self'\<rparr>"
  using assms
  by (auto simp: GWO_WOA_O_step_def GWO_WOA_O_p_def Let_def split_beta batch_merge_def
      GWO_WOA_O_explore_independent bind_err_def split: sum.splits)


text \<open>
  Claim C9. In incremental mode (\<open>self.mode not in self.AVAILABLE_MODES\<close>) an iteration of
  \<open>GWO_WOA_M.evolve\<close> or \<open>GWO_WOA_O.evolve\<close> whose draw is \<open>p < 0.5\<close> runs the same whatever
  \<open>amend_position\<close>, \<open>get_target_wrapper\<close>, \<open>get_better_solution\<close>,
  \<open>update_target_wrapper_population\<close> and \<open>greedy_selection_population\<close> are (none of
  them is called: the new position is not repaired, evaluated or merged), and when it
  returns, \<open>self.pop\<close> and \<open>pop_new\<close> are what they were. So an iteration that changes the
  population has \<open>p >= 0.5\<close>.
\<close>

theorem hybrid_incremental_branch_discarded:
  assumes "\<not> mode_available self"
  shows "(GWO_WOA_M_p env (rng self) < 1 / 2 \<longrightarrow>
            GWO_WOA_M_step (env\<lparr>amend_position := am, get_target_wrapper := gt,
                get_better_solution := gb, update_target_wrapper_population := ut,
                greedy_selection_population := gr\<rparr>) a a2 list_best idx (self, pop_new) =
              GWO_WOA_M_step env a a2 list_best idx (self, pop_new) \<and>
            (\<forall>self' pop_new'.
               GWO_WOA_M_step env a a2 list_best idx (self, pop_new) = Inr (self', pop_new') \<longrightarrow>
               pop self' = pop self \<and> pop_new' = pop_new)) \<and>
         (GWO_WOA_O_p env (rng self) < 1 / 2 \<longrightarrow>
            GWO_WOA_O_step (env\<lparr>amend_position := am, get_target_wrapper := gt,
                get_better_solution := gb, update_target_wrapper_population := ut,
                greedy_selection_population := gr\<rparr>) a' list_best idx (self, pop_new) =
              GWO_WOA_O_step env a' list_best idx (self, pop_new) \<and>
            (\<forall>self' pop_new'.
               GWO_WOA_O_step env a' list_best idx (self, pop_new) = Inr (self', pop_new') \<longrightarrow>
               pop self' = pop self \<and> pop_new' = pop_new))"
  using GWO_WOA_M_step_discards [OF assms] GWO_WOA_O_step_discards [OF assms]
  by (intro conjI impI allI) simp_all

theorem hybrid_incremental_branch_discarded_witness:
  "\<not> mode_available (demo_self False) \<and>
   GWO_WOA_M_p (ref_env tape_quarter) (rng (demo_self False)) < 1 / 2 \<and>
   GWO_WOA_M_step (ref_env tape_quarter) 2 (- 1) (ref_best demo_pop 3) 0 (demo_self False, []) =
     Inr ((demo_self False)\<lparr>rng := 11\<rparr>, []) \<and>
   GWO_WOA_O_p (ref_env tape_quarter) (rng (demo_self False)) < 1 / 2 \<and>
   GWO_WOA_O_step (ref_env tape_quarter) 2 (ref_best demo_pop 3) 0 (demo_self False, []) =
     Inr ((demo_self False)\<lparr>rng := 13\<rparr>, []) \<and>
   pop ((demo_self False)\<lparr>rng := 11\<rparr>) = pop (demo_self False) \<and>
   pop ((demo_self False)\<lparr>rng := 13\<rparr>) = pop (demo_self False)"
proof -
  have m: "\<not> mode_available (demo_self False)"
    by (simp add: demo_self_def)
  have pm: "GWO_WOA_M_p (ref_env tape_quarter) (rng (demo_self False)) < 1 / 2"
    by (simp add: GWO_WOA_M_p_def ref_defs tape_quarter_def)
  have po: "GWO_WOA_O_p (ref_env tape_quarter) (rng (demo_self False)) < 1 / 2"
    by (simp add: GWO_WOA_O_p_def ref_defs tape_quarter_def)
  have sm: "GWO_WOA_M_step (ref_env tape_quarter) 2 (- 1) (ref_best demo_pop 3) 0 (demo_self False, []) =
     Inr ((demo_self False)\<lparr>rng := 11\<rparr>, [])"
    by (simp add: model_defs ref_defs tape_quarter_def)
  have so: "GWO_WOA_O_step (ref_env tape_quarter) 2 (ref_best demo_pop 3) 0 (demo_self False, []) =
     Inr ((demo_self False)\<lparr>rng := 13\<rparr>, [])"
    by (simp add: model_defs ref_defs tape_quarter_def)
  from hybrid_incremental_branch_discarded [OF m, of "ref_env tape_quarter" _ _ _ _ _ 2 "- 1"
      "ref_best demo_pop 3" 0 "[]" 2] pm po sm so m
  show ?thesis by simp
qed

section \<open>The update rule of \<open>BaseGWO\<close>\<close>

text \<open>
  Claim C3. Let \<open>BaseGWO.evolve\<close> be called at epoch \<open>t\<close> with \<open>T > 1\<close> configured epochs on
  a population of \<open>pop_size\<close> members, let \<open>get_special_solutions\<close> return (at least) three
  leaders for it, and let all positions have one length. Then the call is one pass over
  the population as the specification describes it: with \<open>a = 2 - 2 * t / (T - 1)\<close> and
  the leaders \<open>L1\<close>, \<open>L2\<close>, \<open>L3\<close> of the population at entry, the candidate for every index
  \<open>idx\<close> is the repaired mean of \<open>X_i = L_i - A_i * |C_i * L_i - pop[idx]|\<close> with
  \<open>A_i = a * (2 * u_i - 1)\<close>, \<open>C_i = 2 * u_{3+i}\<close> for six successive uniform draws; outside
  the batch modes slot \<open>idx\<close> becomes \<open>get_better_solution\<close> of the evaluated candidate and
  the incumbent, in a batch mode the population becomes the merge of itself with the
  evaluated candidates (and the call raises when the merge does).
\<close>

theorem BaseGWO_evolve_candidates:
  fixes self :: "('g, 't) optimizer"
  assumes "1 < epoch self"
    and "a = 2 - 2 * real_of_int t / (real_of_int (epoch self) - 1)"
    and "length (pop self) = pop_size self"
    and "leaders = get_special_solutions env (pop self) 3" and "2 < length leaders"
    and "L1 = position (leaders ! 0)" and "L2 = position (leaders ! 1)"
    and "L3 = position (leaders ! 2)"
    and "length L1 = n" and "length L2 = n" and "length L3 = n"
    and "list_all (\<lambda>s. length (position s) = n) (pop self)"
    and "spec_candidates (spec_candidate env a (L1, L1) (L2, L2) (L3, L3) (lb self) (ub self))
           (map position (pop self)) (rng self) = (cands, g')"
  shows "evolve BaseGWO env self t =
           bind_err (spec_merge env (mode_available self) (pop self) cands)
             (\<lambda>ps. Inr (self\<lparr>pop := ps, rng := g'\<rparr>))"
proof -
  from assms(1,2) have decay: "linear_decay t (epoch self) = Inr a"
    by (simp add: linear_decay_def)
  have loop: "for_range (BaseGWO_step env a leaders) [0 ..< pop_size self] (self, []) =
         Inr (self\<lparr>pop := (if mode_available self then pop self
                            else map2 (spec_select_slot env) cands (pop self)), rng := g'\<rparr>,
              map (\<lambda>c. Solution c None) cands)"
    using BaseGWO_loop_candidates [of leaders n self env a cands g'] assms(3,5-13)
    by simp
  have "evolve BaseGWO env self t =
        bind_err (batch_merge env
             (self\<lparr>pop := (if mode_available self then pop self
                            else map2 (spec_select_slot env) cands (pop self)), rng := g'\<rparr>,
              map (\<lambda>c. Solution c None) cands))
          (\<lambda>(s, pn). Inr s)"
    by (cases "greedy_selection_population env (pop self)
         (update_target_wrapper_population env (map (\<lambda>c. Solution c None) cands))")
      (simp_all add: BaseGWO_evolve_def decay assms(4) [symmetric] loop batch_merge_def Let_def)
  then show ?thesis by (simp only: batch_merge_spec)
qed

text \<open>
  On the population \<open>[1], ..., [10]\<close> within \<open>[-100, 100]\<close> at epoch 1 of 3 (\<open>a = 1\<close>), with the
  draws \<open>0, 1/4, 1/2, 3/4\<close> repeating: the candidates are
  \<open>7/3, 5/2, 7/3, 5/2, 4, 19/6, 2, 5/2, 6, 9/2\<close>, none of them resampled, and in either mode
  the slots 2 to 9 take their candidates while \<open>[1]\<close> and \<open>[2]\<close> stay.
\<close>

theorem BaseGWO_evolve_candidates_witness:
  "1 < epoch (wide_self False) \<and>
   get_special_solutions (ref_env tape_cycle) (pop (wide_self False)) 3 =
     [Solution [1] (Some 1), Solution [2] (Some 4), Solution [3] (Some 9)] \<and>
   spec_candidates (spec_candidate (ref_env tape_cycle) 1 ([1], [1]) ([2], [2]) ([3], [3])
        [- 100] [100]) (map position demo_pop) 0 =
     ([[7 / 3], [5 / 2], [7 / 3], [5 / 2], [4], [19 / 6], [2], [5 / 2], [6], [9 / 2]], 70) \<and>
   evolve BaseGWO (ref_env tape_cycle) (wide_self False) 1 =
     Inr ((wide_self False)\<lparr>pop := map (\<lambda>v. Solution [v] (Some (v * v)))
            [1, 2, 7 / 3, 5 / 2, 4, 19 / 6, 2, 5 / 2, 6, 9 / 2], rng := 70\<rparr>) \<and>
   evolve BaseGWO (ref_env tape_cycle) (wide_self True) 1 =
     Inr ((wide_self True)\<lparr>pop := map (\<lambda>v. Solution [v] (Some (v * v)))
            [1, 2, 7 / 3, 5 / 2, 4, 19 / 6, 2, 5 / 2, 6, 9 / 2], rng := 70\<rparr>)"
proof -
  let ?env = "ref_env tape_cycle"
  let ?leaders = "[Solution [1] (Some 1), Solution [2] (Some 4), Solution [3] (Some (9::real))]"
  let ?cands = "[[7 / 3], [5 / 2], [7 / 3], [5 / 2], [4], [19 / 6], [2], [5 / 2], [6], [9 / 2 :: real]]"
  have T: "1 < epoch (wide_self b)" for b
    by (simp add: wide_self_def demo_self_def)
  have a: "(1::real) = 2 - 2 * real_of_int 1 / (real_of_int (epoch (wide_self b)) - 1)" for b
    by (simp add: wide_self_def demo_self_def)
  have n: "length (pop (wide_self b)) = pop_size (wide_self b)" for b
    by (simp add: wide_self_def demo_self_def demo_pop_def)
  have best: "?leaders = get_special_solutions ?env (pop (wide_self b)) 3" for b
    by (simp add: wide_self_def ref_defs)
  have l: "2 < length ?leaders" by simp
  have len: "length (position (?leaders ! 0)) = 1" "length (position (?leaders ! 1)) = 1"
    "length (position (?leaders ! 2)) = 1"
    by simp_all
  have dims: "list_all (\<lambda>s. length (position s) = 1) (pop (wide_self b))" for b
    by (simp add: wide_self_def demo_self_def demo_pop_def)
  have c: "spec_candidates (spec_candidate ?env 1 ([1], [1]) ([2], [2]) ([3], [3])
        [- 100] [100]) (map position demo_pop) 0 = (?cands, 70)"
    by code_simp
  have c': "spec_candidates (spec_candidate ?env 1
        (position (?leaders ! 0), position (?leaders ! 0))
        (position (?leaders ! 1), position (?leaders ! 1))
        (position (?leaders ! 2), position (?leaders ! 2))
        (lb (wide_self b)) (ub (wide_self b))) (map position (pop (wide_self b)))
        (rng (wide_self b)) = (?cands, 70)" for b
    using c by (simp add: wide_self_def demo_self_def)
  have inc: "evolve BaseGWO ?env (wide_self False) 1 =
     Inr ((wide_self False)\<lparr>pop := map (\<lambda>v. Solution [v] (Some (v * v)))
            [1, 2, 7 / 3, 5 / 2, 4, 19 / 6, 2, 5 / 2, 6, 9 / 2], rng := 70\<rparr>)"
    unfolding BaseGWO_evolve_candidates [OF T a n best l refl refl refl len dims c', of False]
    by (simp add: spec_merge_def spec_select_slot_def wide_self_def ref_defs)
  have bat: "evolve BaseGWO ?env (wide_self True) 1 =
     Inr ((wide_self True)\<lparr>pop := map (\<lambda>v. Solution [v] (Some (v * v)))
            [1, 2, 7 / 3, 5 / 2, 4, 19 / 6, 2, 5 / 2, 6, 9 / 2], rng := 70\<rparr>)"
    unfolding BaseGWO_evolve_candidates [OF T a n best l refl refl refl len dims c', of True]
    by (simp add: spec_merge_def wide_self_def ref_defs)
  from T [of False] best [of False, symmetric] c inc bat show ?thesis by simp
qed

section \<open>The phases of \<open>RW_GWO\<close>\<close>

text \<open>
  An iteration of the random walk on a leader of \<open>n_dims\<close> coordinates, with a generator
  that returns \<open>n_dims\<close> Cauchy draws, computes the walk of the specification.
\<close>

lemma RW_GWO_walk_candidate:
  assumes cauchy: "\<forall>m g. length (fst (standard_cauchy env m g)) = m"
    and idx: "idx < length ls" and len: "length (position (ls ! idx)) = n_dims self"
    and c: "spec_walked env a (n_dims self) (lb self) (ub self) (position (ls ! idx)) g = (c, g')"
  shows "RW_GWO_walk env a idx (self\<lparr>rng := g\<rparr>, ls, lnew) =
         Inr (self\<lparr>rng := g'\<rparr>,
              if mode_available self then ls else ls[idx := spec_select_slot env c (ls ! idx)],
              lnew @ [Solution c None])"
proof -
  let ?L = "position (ls ! idx)"
  obtain cs g1 where d: "standard_cauchy env (n_dims self) g = (cs, g1)"
    by (cases "standard_cauchy env (n_dims self) g")
  from cauchy have "length (fst (standard_cauchy env (n_dims self) g)) = n_dims self" by blast
  with d have lcs: "length cs = n_dims self" by simp
  have eq: "map (\<lambda>j. ?L ! j + np_scale a cs ! j) [0 ..< length (np_scale a cs)] =
        map (\<lambda>j. ?L ! j + a * cs ! j) [0 ..< n_dims self]"
    using lcs by (simp add: np_scale_def)
  have "length ?L = length (np_scale a cs)"
    using len lcs by (simp add: np_scale_def)
  from np_add_same_length [OF this] have add: "np_add ?L (np_scale a cs) =
      Inr (map (\<lambda>j. ?L ! j + a * cs ! j) [0 ..< n_dims self])"
    by (simp only: eq)
  from c d have am: "amend_position env (map (\<lambda>j. ?L ! j + a * cs ! j) [0 ..< n_dims self])
      (lb self) (ub self) g1 = (c, g')"
    by (simp add: spec_walked_def)
  show ?thesis
    using idx by (simp add: RW_GWO_walk_def py_index_def d add am spec_select_slot_def)
qed

lemma RW_GWO_walk_loop_candidates:
  fixes self :: "('g, 't) optimizer"
  assumes "\<forall>m g. length (fst (standard_cauchy env m g)) = m"
    and "list_all (\<lambda>s. length (position s) = n_dims self) leaders"
    and "spec_candidates (spec_walked env a (n_dims self) (lb self) (ub self))
           (map position leaders) (rng self) = (walked, g')"
  shows "for_range (RW_GWO_walk env a) [0 ..< length leaders] (self, leaders, []) =
         Inr (self\<lparr>rng := g'\<rparr>,
              if mode_available self then leaders else map2 (spec_select_slot env) walked leaders,
              map (\<lambda>c. Solution c None) walked)"
proof -
  have "for_range (RW_GWO_walk env a)
          [length ([] :: 't solution list) ..< length ([] :: 't solution list) + length leaders]
          (self\<lparr>rng := rng self\<rparr>, [] @ leaders, []) =
        Inr (self\<lparr>rng := g'\<rparr>,
             [] @ (if mode_available self then leaders
                   else map2 (spec_select_slot env) walked leaders),
             [] @ map (\<lambda>c. Solution c None) walked)"
  proof (rule candidates_loop [where mk = "\<lambda>ls g lnew. (self\<lparr>rng := g\<rparr>, ls, lnew)"
        and ok = "\<lambda>s. length (position s) = n_dims self", OF _ assms(2,3)])
    fix idx and ps pn :: "'t solution list" and g g1 :: 'g and c
    assume "idx < length ps" "length (position (ps ! idx)) = n_dims self"
      "spec_walked env a (n_dims self) (lb self) (ub self) (position (ps ! idx)) g = (c, g1)"
    from RW_GWO_walk_candidate [OF assms(1) this]
    show "RW_GWO_walk env a idx (self\<lparr>rng := g\<rparr>, ps, pn) =
         Inr (self\<lparr>rng := g1\<rparr>,
              if mode_available self then ps else ps[idx := spec_select_slot env c (ps ! idx)],
              pn @ [Solution c None])" .
  qed
  then show ?thesis by simp
qed

text \<open>
  \<open>RW_GWO.evolve\<close> in closed form, whatever \<open>get_sorted_strim_population\<close> returns: the walk
  of the leaders, their merge, the pass over the population with the refreshed leaders
  and the global best, its merge, and the truncation of the updated population
  followed by the refreshed leaders.
\<close>

lemma RW_GWO_evolve_closed:
  fixes self :: "('g, 't) optimizer"
  assumes T: "1 < epoch self"
    and a: "a = 2 - 2 * real_of_int t / (real_of_int (epoch self) - 1)"
    and n: "length (pop self) = pop_size self"
    and dims: "list_all (\<lambda>s. length (position s) = n_dims self) (pop self)"
    and G: "G = position (g_best self)" and Gn: "length G = n_dims self"
    and cauchy: "\<forall>m g. length (fst (standard_cauchy env m g)) = m"
    and leaders: "leaders = get_special_solutions env (pop self) 3"
    and ldims: "list_all (\<lambda>s. length (position s) = n_dims self) leaders"
    and walk: "spec_candidates (spec_walked env a (n_dims self) (lb self) (ub self))
                 (map position leaders) (rng self) = (walked, g1)"
    and refresh: "spec_merge env (mode_available self) leaders walked = Inr refreshed"
    and r3: "2 < length refreshed"
    and rdims: "list_all (\<lambda>s. length (position s) = n_dims self) refreshed"
    and upd: "spec_candidates
                 (spec_candidate env a (position (refreshed ! 0), G) (position (refreshed ! 1), G)
                    (position (refreshed ! 2), G) (lb self) (ub self))
                 (map position (pop self)) g1 = (cands, g2)"
    and merge: "spec_merge env (mode_available self) (pop self) cands = Inr updated"
  shows "evolve RW_GWO env self t =
           Inr (self\<lparr>pop := get_sorted_strim_population env (updated @ refreshed) (pop_size self),
                     rng := g2\<rparr>)"
proof -
  from T a have decay: "linear_decay t (epoch self) = Inr a"
    by (simp add: linear_decay_def)
  note w = RW_GWO_walk_loop_candidates [OF cauchy ldims walk]
  let ?self1 = "self\<lparr>rng := g1\<rparr>"
  from r3 have "0 < length refreshed" "1 < length refreshed" by auto
  with rdims r3 have rl: "length (position (refreshed ! 0)) = n_dims self"
    "length (position (refreshed ! 1)) = n_dims self"
    "length (position (refreshed ! 2)) = n_dims self"
    unfolding list_all_length by blast+
  have "for_range (RW_GWO_step env a refreshed) [0 ..< length (pop ?self1)] (?self1, []) =
         Inr (?self1\<lparr>pop := (if mode_available ?self1 then pop ?self1
                            else map2 (spec_select_slot env) cands (pop ?self1)), rng := g2\<rparr>,
              map (\<lambda>c. Solution c None) cands)"
    by (rule RW_GWO_loop_candidates [where n = "n_dims self"])
      (use r3 rl Gn G dims upd in simp_all)
  with n have l: "for_range (RW_GWO_step env a refreshed) [0 ..< pop_size self] (?self1, []) =
         Inr (self\<lparr>pop := (if mode_available self then pop self
                            else map2 (spec_select_slot env) cands (pop self)), rng := g2\<rparr>,
              map (\<lambda>c. Solution c None) cands)"
    by simp
  show ?thesis
  proof (cases "mode_available self")
    case True
    with refresh merge have
      "greedy_selection_population env leaders
         (update_target_wrapper_population env (map (\<lambda>c. Solution c None) walked)) = Inr refreshed"
      "greedy_selection_population env (pop self)
         (update_target_wrapper_population env (map (\<lambda>c. Solution c None) cands)) = Inr updated"
      by (simp_all add: spec_merge_def)
    with True show ?thesis
      by (simp add: RW_GWO_evolve_def decay leaders [symmetric] w l)
  next
    case False
    with refresh merge have "map2 (spec_select_slot env) walked leaders = refreshed"
      "map2 (spec_select_slot env) cands (pop self) = updated"
      by (simp_all add: spec_merge_def)
    with False show ?thesis
      by (simp add: RW_GWO_evolve_def decay leaders [symmetric] w l)
  qed
qed

text \<open>
  Claim C5, as the code has it. Let \<open>RW_GWO.evolve\<close> be called at epoch \<open>t\<close> with \<open>T > 1\<close>
  configured epochs on a population of \<open>pop_size\<close> members, all positions of \<open>n_dims\<close>
  coordinates. With \<open>a = 2 - 2 * t / (T - 1)\<close> the call is, in this order: (1) the walk of
  every leader, its position plus \<open>a\<close> times a vector of \<open>n_dims\<close> standard-Cauchy draws,
  repaired, and the merge of the walked candidates into the leaders per mode; (2) the
  pass over the population, the candidate of every member being the repaired mean of
  \<open>X_i = leaders[i] - miu_i * |c_i * g_best - pop[idx]|\<close> over the refreshed leaders, and
  the merge of the candidates into the population per mode; (3) the truncation: the
  population becomes the first \<open>pop_size\<close> members, in the order of their fitness, of the
  list \<open>self.pop + leaders\<close>, the updated population followed by the refreshed leaders.
  The list is a concatenation: a solution that is in both is in it twice.
\<close>

theorem RW_GWO_evolve_phases:
  fixes self :: "('g, 't) optimizer"
  assumes "1 < epoch self"
    and "a = 2 - 2 * real_of_int t / (real_of_int (epoch self) - 1)"
    and "length (pop self) = pop_size self"
    and "list_all (\<lambda>s. length (position s) = n_dims self) (pop self)"
    and "G = position (g_best self)" and "length G = n_dims self"
    and "\<forall>m g. length (fst (standard_cauchy env m g)) = m"
    and "leaders = get_special_solutions env (pop self) 3"
    and "list_all (\<lambda>s. length (position s) = n_dims self) leaders"
    and "spec_candidates (spec_walked env a (n_dims self) (lb self) (ub self))
           (map position leaders) (rng self) = (walked, g1)"
    and "spec_merge env (mode_available self) leaders walked = Inr refreshed"
    and "2 < length refreshed"
    and "list_all (\<lambda>s. length (position s) = n_dims self) refreshed"
    and "spec_candidates
           (spec_candidate env a (position (refreshed ! 0), G) (position (refreshed ! 1), G)
              (position (refreshed ! 2), G) (lb self) (ub self))
           (map position (pop self)) g1 = (cands, g2)"
    and "spec_merge env (mode_available self) (pop self) cands = Inr updated"
    and "truncates_sorted fit env"
  shows "evolve RW_GWO env self t =
           Inr (self\<lparr>pop := take (pop_size self) (sort_key fit (updated @ refreshed)),
                     rng := g2\<rparr>)"
proof -
  from assms(16) have "get_sorted_strim_population env (updated @ refreshed) (pop_size self) =
      take (pop_size self) (sort_key fit (updated @ refreshed))"
    by (simp add: truncates_sorted_def)
  with RW_GWO_evolve_closed [OF assms(1-15)] show ?thesis by simp
qed

lemma ref_truncates_sorted: "truncates_sorted fitness (ref_env tape)"
  by (simp add: truncates_sorted_def ref_env_def ref_best_def)

lemma ref_cauchy_length: "\<forall>m g. length (fst (standard_cauchy (ref_env tape) m g)) = m"
  by (simp add: ref_env_def tape_vector_def)

text \<open>
  On the population \<open>[1], ..., [10]\<close> within \<open>[-100, 100]\<close> at epoch 1 of 3 (\<open>a = 1\<close>), with the
  Cauchy draws \<open>-1/2\<close>: the leaders \<open>[1], [2], [3]\<close> walk to \<open>[1/2], [3/2], [5/2]\<close>, which are
  fitter and replace them; the candidates of the population are
  \<open>5/3, 5/3, 5/2, 5/2, 2, 5/3, 9/2, 23/6, 8/3, 5/3\<close>, which replace all members but \<open>[1]\<close>; the
  population after the call is the best ten of these thirteen solutions.
\<close>

theorem RW_GWO_evolve_phases_witness:
  "spec_candidates (spec_walked (ref_env tape_walk) 1 1 [- 100] [100]) [[1], [2], [3]] 0 =
     ([[1 / 2], [3 / 2], [5 / 2]], 6) \<and>
   spec_merge (ref_env tape_walk) False
       [Solution [1] (Some 1), Solution [2] (Some 4), Solution [3] (Some 9)]
       [[1 / 2], [3 / 2], [5 / 2]] =
     Inr (map (\<lambda>v. Solution [v] (Some (v * v))) [1 / 2, 3 / 2, 5 / 2]) \<and>
   spec_candidates (spec_candidate (ref_env tape_walk) 1 ([1 / 2], [1]) ([3 / 2], [1]) ([5 / 2], [1])
        [- 100] [100]) (map position demo_pop) 6 =
     ([[5 / 3], [5 / 3], [5 / 2], [5 / 2], [2], [5 / 3], [9 / 2], [23 / 6], [8 / 3], [5 / 3]], 76) \<and>
   spec_merge (ref_env tape_walk) False demo_pop
       [[5 / 3], [5 / 3], [5 / 2], [5 / 2], [2], [5 / 3], [9 / 2], [23 / 6], [8 / 3], [5 / 3]] =
     Inr (map (\<lambda>v. Solution [v] (Some (v * v)))
            [1, 5 / 3, 5 / 2, 5 / 2, 2, 5 / 3, 9 / 2, 23 / 6, 8 / 3, 5 / 3]) \<and>
   evolve RW_GWO (ref_env tape_walk) (wide_self False) 1 =
     Inr ((wide_self False)\<lparr>pop := map (\<lambda>v. Solution [v] (Some (v * v)))
            [1 / 2, 1, 3 / 2, 5 / 3, 5 / 3, 5 / 3, 2, 5 / 2, 5 / 2, 5 / 2], rng := 76\<rparr>)"
proof -
  let ?env = "ref_env tape_walk"
  let ?s = "wide_self False"
  let ?leaders = "[Solution [1] (Some 1), Solution [2] (Some 4), Solution [3] (Some (9::real))]"
  let ?walked = "[[1 / 2], [3 / 2], [5 / 2 :: real]]"
  let ?refreshed = "map (\<lambda>v. Solution [v] (Some (v * v))) [1 / 2, 3 / 2, 5 / 2 :: real]"
  let ?cands = "[[5 / 3], [5 / 3], [5 / 2], [5 / 2], [2], [5 / 3], [9 / 2], [23 / 6], [8 / 3],
    [5 / 3 :: real]]"
  let ?updated = "map (\<lambda>v. Solution [v] (Some (v * v)))
            [1, 5 / 3, 5 / 2, 5 / 2, 2, 5 / 3, 9 / 2, 23 / 6, 8 / 3, 5 / 3 :: real]"
  have T: "1 < epoch ?s"
    by (simp add: wide_self_def demo_self_def)
  have a: "(1::real) = 2 - 2 * real_of_int 1 / (real_of_int (epoch ?s) - 1)"
    by (simp add: wide_self_def demo_self_def)
  have n: "length (pop ?s) = pop_size ?s"
    by (simp add: wide_self_def demo_self_def demo_pop_def)
  have dims: "list_all (\<lambda>s. length (position s) = n_dims ?s) (pop ?s)"
    by (simp add: wide_self_def demo_self_def demo_pop_def)
  have G: "[1] = position (g_best ?s)" and Gn: "length [1::real] = n_dims ?s"
    by (simp_all add: wide_self_def demo_self_def)
  have best: "?leaders = get_special_solutions ?env (pop ?s) 3"
    by (simp add: wide_self_def ref_defs)
  have ldims: "list_all (\<lambda>s. length (position s) = n_dims ?s) ?leaders"
    by (simp add: wide_self_def demo_self_def)
  have w: "spec_candidates (spec_walked ?env 1 1 [- 100] [100]) [[1], [2], [3]] 0 = (?walked, 6)"
    by code_simp
  have w': "spec_candidates (spec_walked ?env 1 (n_dims ?s) (lb ?s) (ub ?s))
      (map position ?leaders) (rng ?s) = (?walked, 6)"
    using w by (simp add: wide_self_def demo_self_def)
  have r: "spec_merge ?env False ?leaders ?walked = Inr ?refreshed"
    by (simp add: spec_merge_def spec_select_slot_def ref_defs)
  have r': "spec_merge ?env (mode_available ?s) ?leaders ?walked = Inr ?refreshed"
    using r by (simp add: wide_self_def demo_self_def)
  have r3: "2 < length ?refreshed" by simp
  have rdims: "list_all (\<lambda>s. length (position s) = n_dims ?s) ?refreshed"
    by (simp add: wide_self_def demo_self_def)
  have c: "spec_candidates (spec_candidate ?env 1 ([1 / 2], [1]) ([3 / 2], [1]) ([5 / 2], [1])
        [- 100] [100]) (map position demo_pop) 6 = (?cands, 76)"
    by code_simp
  have c': "spec_candidates
      (spec_candidate ?env 1 (position (?refreshed ! 0), [1]) (position (?refreshed ! 1), [1])
         (position (?refreshed ! 2), [1]) (lb ?s) (ub ?s))
      (map position (pop ?s)) 6 = (?cands, 76)"
    using c by (simp add: wide_self_def demo_self_def)
  have m: "spec_merge ?env False demo_pop ?cands = Inr ?updated"
    by (simp add: spec_merge_def spec_select_slot_def ref_defs)
  have m': "spec_merge ?env (mode_available ?s) (pop ?s) ?cands = Inr ?updated"
    using m by (simp add: wide_self_def demo_self_def)
  have run: "evolve RW_GWO ?env ?s 1 =
     Inr (?s\<lparr>pop := map (\<lambda>v. Solution [v] (Some (v * v)))
            [1 / 2, 1, 3 / 2, 5 / 3, 5 / 3, 5 / 3, 2, 5 / 2, 5 / 2, 5 / 2], rng := 76\<rparr>)"
    unfolding RW_GWO_evolve_phases [OF T a n dims G Gn ref_cauchy_length best ldims w' r' r3 rdims
        c' m' ref_truncates_sorted]
    by (simp add: wide_self_def demo_self_def fitness_def)
  from w r c m run show ?thesis by simp
qed

text \<open>
  Claim C5 fails as stated in its part (3). On the same population at epoch 1 of 3 with
  every draw \<open>1/4\<close>, the walked leaders \<open>[5/4], [9/4], [13/4]\<close> are worse than the leaders,
  which stay \<open>[1], [2], [3]\<close>; the candidates replace the members \<open>[4], ..., [10]\<close> by
  \<open>[15/4], ..., [27/4]\<close> and leave \<open>[1], [2], [3]\<close>. The union of the updated population
  and the refreshed leaders is the updated population, ten solutions, so its best ten
  members are all of it. The population after the call holds \<open>[1]\<close>, \<open>[2]\<close> and \<open>[3]\<close> twice
  each and has lost \<open>[23/4]\<close>, \<open>[25/4]\<close> and \<open>[27/4]\<close>.
\<close>

theorem RW_GWO_counts_unmoved_leaders_twice:
  "spec_candidates (spec_walked (ref_env tape_quarter) 1 1 [- 100] [100]) [[1], [2], [3]] 0 =
     ([[5 / 4], [9 / 4], [13 / 4]], 6) \<and>
   spec_merge (ref_env tape_quarter) False
       [Solution [1] (Some 1), Solution [2] (Some 4), Solution [3] (Some 9)]
       [[5 / 4], [9 / 4], [13 / 4]] =
     Inr [Solution [1] (Some 1), Solution [2] (Some 4), Solution [3] (Some 9)] \<and>
   spec_candidates (spec_candidate (ref_env tape_quarter) 1 ([1], [1]) ([2], [1]) ([3], [1])
        [- 100] [100]) (map position demo_pop) 6 =
     ([[9 / 4], [11 / 4], [13 / 4], [15 / 4], [17 / 4], [19 / 4], [21 / 4], [23 / 4], [25 / 4],
       [27 / 4]], 76) \<and>
   spec_merge (ref_env tape_quarter) False demo_pop
       [[9 / 4], [11 / 4], [13 / 4], [15 / 4], [17 / 4], [19 / 4], [21 / 4], [23 / 4], [25 / 4],
        [27 / 4]] =
     Inr (map (\<lambda>v. Solution [v] (Some (v * v)))
            [1, 2, 3, 15 / 4, 17 / 4, 19 / 4, 21 / 4, 23 / 4, 25 / 4, 27 / 4]) \<and>
   evolve RW_GWO (ref_env tape_quarter) (wide_self False) 1 =
     Inr ((wide_self False)\<lparr>pop := map (\<lambda>v. Solution [v] (Some (v * v)))
            [1, 1, 2, 2, 3, 3, 15 / 4, 17 / 4, 19 / 4, 21 / 4], rng := 76\<rparr>) \<and>
   ref_best (remdups
       (map (\<lambda>v. Solution [v] (Some (v * v)))
            [1, 2, 3, 15 / 4, 17 / 4, 19 / 4, 21 / 4, 23 / 4, 25 / 4, 27 / 4] @
        [Solution [1] (Some 1), Solution [2] (Some 4), Solution [3] (Some 9)])) 10 =
     map (\<lambda>v. Solution [v] (Some (v * v)))
            [1, 2, 3, 15 / 4, 17 / 4, 19 / 4, 21 / 4, 23 / 4, 25 / 4, 27 / 4] \<and>
   map (\<lambda>v. Solution [v] (Some (v * v))) [1, 1, 2, 2, 3, 3, 15 / 4, 17 / 4, 19 / 4, 21 / 4] \<noteq>
     map (\<lambda>v. Solution [v] (Some (v * v)))
            [1, 2, 3, 15 / 4, 17 / 4, 19 / 4, 21 / 4, 23 / 4, 25 / 4, 27 / 4 :: real]"
proof -
  let ?env = "ref_env tape_quarter"
  have w: "spec_candidates (spec_walked ?env 1 1 [- 100] [100]) [[1], [2], [3]] 0 =
     ([[5 / 4], [9 / 4], [13 / 4]], 6)"
    by code_simp
  have r: "spec_merge ?env False
       [Solution [1] (Some 1), Solution [2] (Some 4), Solution [3] (Some 9)]
       [[5 / 4], [9 / 4], [13 / 4]] =
     Inr [Solution [1] (Some 1), Solution [2] (Some 4), Solution [3] (Some 9)]"
    by (simp add: spec_merge_def spec_select_slot_def ref_defs)
  have c: "spec_candidates (spec_candidate ?env 1 ([1], [1]) ([2], [1]) ([3], [1])
        [- 100] [100]) (map position demo_pop) 6 =
     ([[9 / 4], [11 / 4], [13 / 4], [15 / 4], [17 / 4], [19 / 4], [21 / 4], [23 / 4], [25 / 4],
       [27 / 4]], 76)"
    by code_simp
  have m: "spec_merge ?env False demo_pop
       [[9 / 4], [11 / 4], [13 / 4], [15 / 4], [17 / 4], [19 / 4], [21 / 4], [23 / 4], [25 / 4],
        [27 / 4]] =
     Inr (map (\<lambda>v. Solution [v] (Some (v * v)))
            [1, 2, 3, 15 / 4, 17 / 4, 19 / 4, 21 / 4, 23 / 4, 25 / 4, 27 / 4])"
    by (simp add: spec_merge_def spec_select_slot_def ref_defs)
  have run: "evolve RW_GWO ?env (wide_self False) 1 =
     Inr ((wide_self False)\<lparr>pop := map (\<lambda>v. Solution [v] (Some (v * v)))
            [1, 1, 2, 2, 3, 3, 15 / 4, 17 / 4, 19 / 4, 21 / 4], rng := 76\<rparr>)"
  proof -
    have "RW_GWO_evolve ?env (wide_self False) 1 =
     Inr ((wide_self False)\<lparr>pop := map (\<lambda>v. Solution [v] (Some (v * v)))
            [1, 1, 2, 2, 3, 3, 15 / 4, 17 / 4, 19 / 4, 21 / 4], rng := 76\<rparr>)"
      by code_simp
    then show ?thesis by simp
  qed
  have u: "ref_best (remdups
       (map (\<lambda>v. Solution [v] (Some (v * v)))
            [1, 2, 3, 15 / 4, 17 / 4, 19 / 4, 21 / 4, 23 / 4, 25 / 4, 27 / 4] @
        [Solution [1] (Some 1), Solution [2] (Some 4), Solution [3] (Some 9)])) 10 =
     map (\<lambda>v. Solution [v] (Some (v * v)))
            [1, 2, 3, 15 / 4, 17 / 4, 19 / 4, 21 / 4, 23 / 4, 25 / 4, 27 / 4]"
    by code_simp
  from w r c m run u show ?thesis by simp
qed

section \<open>The branches of \<open>GWO_WOA_M\<close>\<close>

text \<open>
  The branch \<open>p < 0.5\<close> of \<open>GWO_WOA_M\<close> encircles the global best for \<open>|A| < 1\<close> and a
  solution from \<open>create_solution\<close> otherwise.
\<close>

lemma GWO_WOA_M_explore_spec:
  assumes "idx < length (pop st)" and "x = position (pop st ! idx)"
    and "G = position (g_best st)" and "length G = length x"
    and "create_solution env (lb st) (ub st) g = (x_rand, g')"
    and "length (position x_rand) = length x"
  shows "GWO_WOA_M_explore env st A C idx g =
           (if \<bar>A\<bar> < 1 then Inr (spec_X G A C G x, g)
            else Inr (spec_X (position x_rand) A C (position x_rand) x, g'))"
  using assms by (simp add: GWO_WOA_M_explore_def py_index_def attract_spec)

text \<open>
  The branch \<open>p >= 0.5\<close> of \<open>GWO_WOA_M\<close>: the first leader is taken with \<open>(A1, C2)\<close> and
  the second with \<open>(A2, C1)\<close>.
\<close>

lemma GWO_WOA_M_step_exploit:
  assumes "rand env (rng st) = (r1, g1)" and "rand env g1 = (r2, g2)"
    and "rand env g2 = (rl, g3)" and "rand env g3 = (p, g4)"
    and "uniform env g4 = (u1, g5)" and "uniform env g5 = (u2, g6)"
    and "uniform env g6 = (u3, g7)" and "uniform env g7 = (u4, g8)"
    and "uniform env g8 = (u5, g9)" and "uniform env g9 = (u6, g10)"
    and "A1 = a * (2 * u1 - 1)" and "C1 = 2 * u2" and "A2 = a * (2 * u3 - 1)"
    and "C2 = 2 * u4" and "A3 = a * (2 * u5 - 1)" and "C3 = 2 * u6"
    and "\<not> p < 0.5"
    and "2 < length list_best" and "idx < length (pop st)"
    and "L1 = position (list_best ! 0)" and "L2 = position (list_best ! 1)"
    and "L3 = position (list_best ! 2)" and "x = position (pop st ! idx)"
    and "length L1 = length x" and "length L2 = length x" and "length L3 = length x"
    and "amend_position env (spec_three_leaders L1 L2 L3 (A1, C2) (A2, C1) (A3, C3) x)
           (lb st) (ub st) g10 = (pos_new, g11)"
  shows "GWO_WOA_M_step env a a2 list_best idx (st, pop_new) =
           batch_merge env
             (if mode_available st then st\<lparr>rng := g11\<rparr>
              else st\<lparr>pop := (pop st)[idx := get_better_solution env
                      (Solution pos_new (Some (get_target_wrapper env pos_new))) (pop st ! idx)],
                   rng := g11\<rparr>,
              pop_new @ [Solution pos_new None])"
proof -
  have mean: "leaders_mean list_best (\<lambda>L. L) (A1, C2) (A2, C1) (A3, C3) (pop st) idx =
      Inr (spec_three_leaders L1 L2 L3 (A1, C2) (A2, C1) (A3, C3) x)"
    using assms(18-26) by (simp add: leaders_mean_spec spec_three_leaders_def)
  show ?thesis
    using assms(1-17) mean amend_and_select_eq [OF assms(27) assms(19)]
    by (simp add: GWO_WOA_M_step_def Let_def)
qed

text \<open>
  Claim C6. The two branches with \<open>p < 0.5\<close> are as the claim says (lemma
  \<open>GWO_WOA_M_explore_spec\<close>), the branch \<open>p >= 0.5\<close> is not: line 259 takes \<open>C2\<close> with the
  first leader and line 262 takes \<open>C1\<close> with the second. On the ten-member population
  \<open>[1], ..., [10]\<close> with \<open>a = 2\<close> and the draws \<open>3/4, 0, 1/4, 1/2\<close> repeating, iteration 9 has
  \<open>p = 1/2\<close>, \<open>(A1, C1) = (1, 0)\<close>, \<open>(A2, C2) = (-1, 1)\<close>, \<open>(A3, C3) = (1, 0)\<close>; the code stores
  the candidate \<open>[-1]\<close>, the mean with the swapped pairs, where the formula of section 4.6
  gives \<open>[-2]\<close>.
\<close>

theorem GWO_WOA_M_exploitation_swaps_coefficients:
  "GWO_WOA_M_p (ref_env tape_shifted) (rng (demo_self False)) = 1 / 2 \<and>
   GWO_WOA_M_step (ref_env tape_shifted) 2 (- 1) (ref_best demo_pop 3) 9
       (demo_self False, []) =
     Inr ((demo_self False)\<lparr>pop := demo_pop[9 := Solution [- 1] (Some 1)], rng := 11\<rparr>,
          [Solution [- 1] None]) \<and>
   spec_three_leaders [1] [2] [3] (1, 1) (- 1, 0) (1, 0) [10] = [- 1] \<and>
   spec_three_leaders [1] [2] [3] (1, 0) (- 1, 1) (1, 0) [10] = [- 2]"
proof -
  let ?tape = tape_shifted
  let ?env = "ref_env ?tape"
  let ?s = "demo_self False"
  have p: "GWO_WOA_M_p ?env (rng ?s) = 1 / 2"
    by (simp add: GWO_WOA_M_p_def ref_defs tape_shifted_def)
  have d1: "rand ?env (rng ?s) = (3 / 4, 1)"
    and d2: "rand ?env 1 = (0, 2)"
    and d3: "rand ?env 2 = (1 / 4, 3)"
    and d4: "rand ?env 3 = (1 / 2, 4)"
    and d5: "uniform ?env 4 = (3 / 4, 5)"
    and d6: "uniform ?env 5 = (0, 6)"
    and d7: "uniform ?env 6 = (1 / 4, 7)"
    and d8: "uniform ?env 7 = (1 / 2, 8)"
    and d9: "uniform ?env 8 = (3 / 4, 9)"
    and d10: "uniform ?env 9 = (0, 10)"
    by (simp_all add: ref_defs tape_shifted_def)
  have c: "(1::real) = 2 * (2 * (3 / 4) - 1)" "(0::real) = 2 * 0" "(- 1::real) = 2 * (2 * (1 / 4) - 1)"
    "(1::real) = 2 * (1 / 2)"
    by simp_all
  have np: "\<not> (1 / 2 :: real) < 0.5" by simp
  have best: "ref_best demo_pop 3 = [Solution [1] (Some 1), Solution [2] (Some 4), Solution [3] (Some 9)]"
    by (simp add: ref_defs tape_shifted_def)
  have n: "2 < length (ref_best demo_pop 3)"
    by (simp add: best)
  have i: "9 < length (pop ?s)" and x: "[10] = position (pop ?s ! 9)"
    by (simp_all add: ref_defs tape_shifted_def)
  have L: "[1] = position (ref_best demo_pop 3 ! 0)" "[2] = position (ref_best demo_pop 3 ! 1)"
    "[3] = position (ref_best demo_pop 3 ! 2)"
    by (simp_all add: best)
  have code: "spec_three_leaders [1] [2] [3] (1, 1) (- 1, 0) (1, 0) [10] = [- 1]"
    and claim: "spec_three_leaders [1] [2] [3] (1, 0) (- 1, 1) (1, 0) [10] = [- 2]"
    by (simp_all add: spec_three_leaders_def spec_mean3_def spec_X_def)
  have am: "amend_position ?env (spec_three_leaders [1] [2] [3] (1, 1) (- 1, 0) (1, 0) [10])
      (lb ?s) (ub ?s) 10 = ([- 1], 11)"
    by (simp add: code) (simp add: ref_defs tape_shifted_def)
  have "GWO_WOA_M_step ?env 2 (- 1) (ref_best demo_pop 3) 9 (?s, []) =
     Inr (?s\<lparr>pop := demo_pop[9 := Solution [- 1] (Some 1)], rng := 11\<rparr>, [Solution [- 1] None])"
    using GWO_WOA_M_step_exploit [OF d1 d2 d3 d4 d5 d6 d7 d8 d9 d10 c(1) c(2) c(3) c(4) c(1) c(2) np n i
        L(1) L(2) L(3) x _ _ _ am, where ?a2.0 = "- 1" and pop_new = "[]"]
    by (simp add: batch_merge_def) (simp add: ref_defs tape_shifted_def)
  with p code claim show ?thesis by simp
qed

section \<open>Selection on an exact tie\<close>

lemma amend_and_select_merged:
  assumes "replaces_on_improvement better env" and "\<not> mode_available st"
    and "amend_and_select env pos g idx (st, pn) = Inr (st', pn')"
  shows "candidate_merged better env idx (pop st) pn (pop st') pn'"
  using amend_and_select_cases [OF assms(3)] assms(1,2)
  by (auto simp: candidate_merged_def replaces_on_improvement_def)

text \<open>Outside the batch modes the block that evaluates and merges \<open>pop_new\<close> does nothing.\<close>

lemma batch_merge_incremental:
  assumes "\<not> mode_available (fst st1)"
  shows "batch_merge env st1 = Inr st1"
  using assms by (cases st1) (simp add: batch_merge_def)

text \<open>An iteration of a hybrid with \<open>p >= 0.5\<close> ends with the tail that all strategies share.\<close>

lemma GWO_WOA_M_step_exploits:
  assumes "\<not> GWO_WOA_M_p env (rng st) < 1 / 2"
    and "GWO_WOA_M_step env a a2 list_best idx (st, pn) = Inr st'"
  shows "\<exists>st1 pos g. amend_and_select env pos g idx (st, pn) = Inr st1 \<and>
           batch_merge env st1 = Inr st'"
  using assms
  by (auto simp: GWO_WOA_M_step_def GWO_WOA_M_p_def Let_def bind_err_eq_Inr split: prod.splits)

lemma GWO_WOA_O_step_exploits:
  assumes "\<not> GWO_WOA_O_p env (rng st) < 1 / 2"
    and "GWO_WOA_O_step env a list_best idx (st, pn) = Inr st'"
  shows "\<exists>st1 pos g. amend_and_select env pos g idx (st, pn) = Inr st1 \<and>
           batch_merge env st1 = Inr st'"
  using assms
  by (auto simp: GWO_WOA_O_step_def GWO_WOA_O_p_def Let_def bind_err_eq_Inr split: prod.splits)

lemma hybrid_merged:
  assumes "replaces_on_improvement better env" and "\<not> mode_available st"
    and "amend_and_select env pos g idx (st, pn) = Inr st1"
    and "batch_merge env st1 = Inr (st', pn')"
  shows "candidate_merged better env idx (pop st) pn (pop st') pn'"
proof -
  obtain s1 p1 where st1: "st1 = (s1, p1)" by (cases st1)
  from assms(3) st1 have a: "amend_and_select env pos g idx (st, pn) = Inr (s1, p1)" by simp
  from amend_and_select_frame [OF a] assms(2) have "\<not> mode_available (fst st1)"
    by (simp add: same_frame_def st1)
  from batch_merge_incremental [OF this] assms(4) st1 have "st' = s1" "pn' = p1" by simp_all
  with amend_and_select_merged [OF assms(1,2) a] show ?thesis by simp
qed

text \<open>
  Claim C8, as the code has it. Outside the batch modes every strategy stores
  \<open>get_better_solution([pos_new, target], self.pop[idx])\<close> in slot \<open>idx\<close>: the candidate is
  the first argument and the incumbent the second. Let \<open>get_better_solution\<close> return its
  first argument when that is strictly fitter and its second otherwise (section 4.4).
  Then an iteration of \<open>BaseGWO\<close> or \<open>RW_GWO\<close>, and an iteration of a hybrid whose draw is
  \<open>p >= 0.5\<close>, appends its candidate to \<open>pop_new\<close> and leaves in the slot the candidate if it
  is strictly fitter than the incumbent, and the incumbent otherwise: a tie keeps the
  incumbent. An iteration of a hybrid with \<open>p < 0.5\<close> leaves the population and \<open>pop_new\<close>
  as they were.
\<close>

theorem incremental_slot_keeps_incumbent_unless_improved:
  assumes "replaces_on_improvement better env" and "\<not> mode_available st"
  shows "(BaseGWO_step env a list_best idx (st, pn) = Inr (st', pn') \<longrightarrow>
            candidate_merged better env idx (pop st) pn (pop st') pn') \<and>
         (RW_GWO_step env a list_best idx (st, pn) = Inr (st', pn') \<longrightarrow>
            candidate_merged better env idx (pop st) pn (pop st') pn') \<and>
         (GWO_WOA_M_step env a a2 list_best idx (st, pn) = Inr (st', pn') \<longrightarrow>
            (if GWO_WOA_M_p env (rng st) < 1 / 2 then pop st' = pop st \<and> pn' = pn
             else candidate_merged better env idx (pop st) pn (pop st') pn')) \<and>
         (GWO_WOA_O_step env a list_best idx (st, pn) = Inr (st', pn') \<longrightarrow>
            (if GWO_WOA_O_p env (rng st) < 1 / 2 then pop st' = pop st \<and> pn' = pn
             else candidate_merged better env idx (pop st) pn (pop st') pn'))"
proof (intro conjI impI)
  assume "BaseGWO_step env a list_best idx (st, pn) = Inr (st', pn')"
  from BaseGWO_step_shape [OF this] obtain pos g where
    "amend_and_select env pos g idx (st, pn) = Inr (st', pn')" by (elim exE)
  from amend_and_select_merged [OF assms this]
  show "candidate_merged better env idx (pop st) pn (pop st') pn'" .
next
  assume "RW_GWO_step env a list_best idx (st, pn) = Inr (st', pn')"
  from RW_GWO_step_shape [OF this] obtain pos g where
    "amend_and_select env pos g idx (st, pn) = Inr (st', pn')" by (elim exE)
  from amend_and_select_merged [OF assms this]
  show "candidate_merged better env idx (pop st) pn (pop st') pn'" .
next
  assume run: "GWO_WOA_M_step env a a2 list_best idx (st, pn) = Inr (st', pn')"
  show "if GWO_WOA_M_p env (rng st) < 1 / 2 then pop st' = pop st \<and> pn' = pn
        else candidate_merged better env idx (pop st) pn (pop st') pn'"
  proof (cases "GWO_WOA_M_p env (rng st) < 1 / 2")
    case True
    from GWO_WOA_M_step_discards(2) [OF assms(2) True run] True show ?thesis by simp
  next
    case False
    from GWO_WOA_M_step_exploits [OF False run] obtain st1 pos g where
      "amend_and_select env pos g idx (st, pn) = Inr st1" "batch_merge env st1 = Inr (st', pn')"
      by (elim exE conjE)
    from hybrid_merged [OF assms this] False show ?thesis by simp
  qed
next
  assume run: "GWO_WOA_O_step env a list_best idx (st, pn) = Inr (st', pn')"
  show "if GWO_WOA_O_p env (rng st) < 1 / 2 then pop st' = pop st \<and> pn' = pn
        else candidate_merged better env idx (pop st) pn (pop st') pn'"
  proof (cases "GWO_WOA_O_p env (rng st) < 1 / 2")
    case True
    from GWO_WOA_O_step_discards(2) [OF assms(2) True run] True show ?thesis by simp
  next
    case False
    from GWO_WOA_O_step_exploits [OF False run] obtain st1 pos g where
      "amend_and_select env pos g idx (st, pn) = Inr st1" "batch_merge env st1 = Inr (st', pn')"
      by (elim exE conjE)
    from hybrid_merged [OF assms this] False show ?thesis by simp
  qed
qed

lemma ref_env_replaces_on_improvement: "replaces_on_improvement fitter (ref_env tape)"
  by (simp add: replaces_on_improvement_def ref_env_def ref_better_def fitter_def)

text \<open>
  Iteration 3 of \<open>BaseGWO.evolve\<close> on the population \<open>[1], ..., [10]\<close> (draws
  \<open>7/8, 7/8, 7/8, 0, 0, 0\<close>, \<open>a = 2\<close>) produces the candidate \<open>[-4]\<close> of fitness 16, the
  fitness of the incumbent \<open>[4]\<close>: the incumbent stays. Iteration 9 of \<open>GWO_WOA_M.evolve\<close>
  with \<open>p = 1/2\<close> produces the candidate \<open>[-1]\<close>, strictly fitter than the incumbent \<open>[10]\<close>,
  and stores it.
\<close>

theorem incremental_slot_keeps_incumbent_unless_improved_witness:
  "replaces_on_improvement fitter (ref_env tape_tie) \<and>
   \<not> mode_available (demo_self False) \<and>
   pop (demo_self False) ! 3 = Solution [4] (Some 16) \<and>
   fitness (Solution [- 4] (Some 16)) = fitness (Solution [4] (Some 16)) \<and>
   BaseGWO_step (ref_env tape_tie) 2 (ref_best demo_pop 3) 3 (demo_self False, []) =
     Inr ((demo_self False)\<lparr>rng := 7\<rparr>, [Solution [- 4] None]) \<and>
   candidate_merged fitter (ref_env tape_tie) 3 demo_pop [] demo_pop [Solution [- 4] None] \<and>
   \<not> GWO_WOA_M_p (ref_env tape_shifted) (rng (demo_self False)) < 1 / 2 \<and>
   GWO_WOA_M_step (ref_env tape_shifted) 2 (- 1) (ref_best demo_pop 3) 9 (demo_self False, []) =
     Inr ((demo_self False)\<lparr>pop := demo_pop[9 := Solution [- 1] (Some 1)], rng := 11\<rparr>,
          [Solution [- 1] None]) \<and>
   candidate_merged fitter (ref_env tape_shifted) 9
     demo_pop [] (demo_pop[9 := Solution [- 1] (Some 1)]) [Solution [- 1] None]"
proof -
  have m: "\<not> mode_available (demo_self False)"
    by (simp add: demo_self_def)
  have slot: "pop (demo_self False) ! 3 = Solution [4] (Some 16)"
    and tie: "fitness (Solution [- 4] (Some 16)) = fitness (Solution [4] (Some 16))"
    by (simp_all add: demo_self_def demo_pop_def fitness_def)
  have run: "BaseGWO_step (ref_env tape_tie) 2 (ref_best demo_pop 3) 3 (demo_self False, []) =
     Inr ((demo_self False)\<lparr>rng := 7\<rparr>, [Solution [- 4] None])"
    by (simp add: model_defs ref_defs tape_tie_def)
  have p: "\<not> GWO_WOA_M_p (ref_env tape_shifted) (rng (demo_self False)) < 1 / 2"
    by (simp add: GWO_WOA_M_p_def ref_defs tape_shifted_def)
  have hyb: "GWO_WOA_M_step (ref_env tape_shifted) 2 (- 1) (ref_best demo_pop 3) 9 (demo_self False, []) =
     Inr ((demo_self False)\<lparr>pop := demo_pop[9 := Solution [- 1] (Some 1)], rng := 11\<rparr>,
          [Solution [- 1] None])"
    by (simp add: model_defs ref_defs tape_shifted_def)
  from incremental_slot_keeps_incumbent_unless_improved
      [OF ref_env_replaces_on_improvement m,
       where a = 2 and list_best = "ref_best demo_pop 3" and idx = 3 and pn = "[]"
        and st' = "(demo_self False)\<lparr>rng := 7\<rparr>"
        and pn' = "[Solution [- 4] None]" and tape1 = tape_tie] run
  have c1: "candidate_merged fitter (ref_env tape_tie) 3 demo_pop [] demo_pop [Solution [- 4] None]"
    by (simp add: demo_self_def)
  from incremental_slot_keeps_incumbent_unless_improved
      [OF ref_env_replaces_on_improvement m,
       where a = 2 and ?a2.0 = "- 1" and list_best = "ref_best demo_pop 3" and idx = 9 and pn = "[]"
        and st' = "(demo_self False)\<lparr>pop := demo_pop[9 := Solution [- 1] (Some 1)], rng := 11\<rparr>"
        and pn' = "[Solution [- 1] None]" and tape1 = tape_shifted] hyb p
  have c2: "candidate_merged fitter (ref_env tape_shifted) 9
     demo_pop [] (demo_pop[9 := Solution [- 1] (Some 1)]) [Solution [- 1] None]"
    by (simp add: demo_self_def)
  from ref_env_replaces_on_improvement [of tape_tie] m slot tie run c1 p hyb c2
  show ?thesis by simp
qed

text \<open>
  Claim C8 fails as stated. Let \<open>get_better_solution\<close> return its first argument on a
  tie, as the claim's contract has it. In iteration 3 of \<open>BaseGWO.evolve\<close> on the
  population \<open>[1], ..., [10]\<close> (draws \<open>7/8, 7/8, 7/8, 0, 0, 0\<close>, \<open>a = 2\<close>) the candidate \<open>[-4]\<close>
  has the fitness 16 of the incumbent \<open>[4]\<close>; the candidate is the first argument of the
  call, so slot 3 then holds the candidate: the incumbent is not kept.
\<close>

theorem first_argument_on_tie_replaces_incumbent:
  "better_first fitter (ref_env_first tape_tie) \<and>
   \<not> mode_available (demo_self False) \<and>
   pop (demo_self False) ! 3 = Solution [4] (Some 16) \<and>
   fitness (Solution [- 4] (Some 16)) = fitness (Solution [4] (Some 16)) \<and>
   BaseGWO_step (ref_env_first tape_tie) 2 (ref_best demo_pop 3) 3
       (demo_self False, []) =
     Inr ((demo_self False)\<lparr>pop := demo_pop[3 := Solution [- 4] (Some 16)], rng := 7\<rparr>,
          [Solution [- 4] None]) \<and>
   pop ((demo_self False)\<lparr>pop := demo_pop[3 := Solution [- 4] (Some 16)], rng := 7\<rparr>) ! 3 \<noteq>
     pop (demo_self False) ! 3"
proof -
  have "BaseGWO_step (ref_env_first tape_tie) 2 (ref_best demo_pop 3) 3
       (demo_self False, []) =
     Inr ((demo_self False)\<lparr>pop := demo_pop[3 := Solution [- 4] (Some 16)], rng := 7\<rparr>,
          [Solution [- 4] None])"
    by (simp add: model_defs ref_defs ref_env_first_def ref_better_first_def tape_tie_def)
  moreover have "better_first fitter (ref_env_first tape_tie)"
    by (simp add: better_first_def ref_env_first_def ref_env_def ref_better_first_def fitter_def)
  ultimately show ?thesis
    by (simp add: demo_self_def demo_pop_def fitness_def)
qed

section \<open>The population stays within the bounds\<close>

lemma all_within_iff: "all_within l u ps \<longleftrightarrow> (\<forall>v \<in> position ` set ps. in_bounds l u v)"
  by (auto simp: all_within_def list_all_iff)

lemma all_within_subset:
  assumes "position ` set ps \<subseteq> position ` set qs" and "all_within l u qs"
  shows "all_within l u ps"
  using assms unfolding all_within_iff by blast

lemma all_within_subset2:
  assumes "position ` set ps \<subseteq> position ` set qs \<union> position ` set rs"
    and "all_within l u qs" and "all_within l u rs"
  shows "all_within l u ps"
  using assms unfolding all_within_iff by blast

lemma all_within_Nil [simp]: "all_within l u []"
  by (simp add: all_within_def)

lemma all_within_append [simp]:
  "all_within l u (ps @ qs) \<longleftrightarrow> all_within l u ps \<and> all_within l u qs"
  by (simp add: all_within_def)

lemma all_within_single [simp]: "all_within l u [s] \<longleftrightarrow> in_bounds l u (position s)"
  by (simp add: all_within_def)

lemma all_within_update:
  assumes "all_within l u ps" and "in_bounds l u (position s)"
  shows "all_within l u (ps[i := s])"
  using assms unfolding all_within_iff by (auto dest!: subsetD [OF set_update_subset_insert])

lemma all_within_nth:
  assumes "all_within l u ps" and "i < length ps"
  shows "in_bounds l u (position (ps ! i))"
  using assms unfolding all_within_iff by auto

text \<open>The invariant of the loops over \<open>(self, pop_new)\<close>.\<close>

lemma amend_and_select_within:
  assumes am: "amend_within env (lb st) (ub st)" and sel: "selects_positions env"
    and inv: "all_within (lb st) (ub st) (pop st)" "all_within (lb st) (ub st) pn"
    and run: "amend_and_select env pos g idx (st, pn) = Inr (st', pn')"
  shows "all_within (lb st) (ub st) (pop st') \<and> all_within (lb st) (ub st) pn'"
proof -
  from amend_and_select_cases [OF run] obtain cand g' where
    c: "amend_position env pos (lb st) (ub st) g = (cand, g')"
    and pn': "pn' = pn @ [Solution cand None]"
    and st': "if mode_available st then st' = st\<lparr>rng := g'\<rparr>
            else idx < length (pop st) \<and>
                 st' = st\<lparr>pop := (pop st)[idx := get_better_solution env
                                  (Solution cand (Some (get_target_wrapper env cand))) (pop st ! idx)],
                              rng := g'\<rparr>"
    by blast
  from am c have cb: "in_bounds (lb st) (ub st) cand"
    unfolding amend_within_def by (metis fst_conv)
  from pn' inv(2) cb have 2: "all_within (lb st) (ub st) pn'" by simp
  have 1: "all_within (lb st) (ub st) (pop st')"
  proof (cases "mode_available st")
    case True
    with st' inv(1) show ?thesis by simp
  next
    case False
    with st' have i: "idx < length (pop st)"
      and eq: "pop st' = (pop st)[idx := get_better_solution env
                                  (Solution cand (Some (get_target_wrapper env cand))) (pop st ! idx)]"
      by simp_all
    let ?b = "get_better_solution env (Solution cand (Some (get_target_wrapper env cand))) (pop st ! idx)"
    from sel have "position ?b = cand \<or> position ?b = position (pop st ! idx)"
      unfolding selects_positions_def by (metis solution.sel(1))
    with cb all_within_nth [OF inv(1) i] have "in_bounds (lb st) (ub st) (position ?b)" by auto
    with inv(1) eq show ?thesis by (simp add: all_within_update)
  qed
  from 1 2 show ?thesis ..
qed

lemma selects_positions_update:
  "selects_positions env \<Longrightarrow>
   position ` set (update_target_wrapper_population env ps) \<subseteq> position ` set ps"
  by (simp add: selects_positions_def)

lemma selects_positions_greedy:
  "selects_positions env \<Longrightarrow> greedy_selection_population env old new = Inr ps \<Longrightarrow>
   position ` set ps \<subseteq> position ` set old \<union> position ` set new"
  by (simp add: selects_positions_def)

lemma selects_positions_special:
  "selects_positions env \<Longrightarrow>
   position ` set (get_special_solutions env ps k) \<subseteq> position ` set ps"
  by (simp add: selects_positions_def)

lemma selects_positions_strim:
  "selects_positions env \<Longrightarrow>
   position ` set (get_sorted_strim_population env ps n) \<subseteq> position ` set ps"
  by (simp add: selects_positions_def)

lemma batch_merge_within:
  assumes sel: "selects_positions env"
    and inv: "all_within l u (pop st)" "all_within l u pn"
    and run: "batch_merge env (st, pn) = Inr (st', pn')"
  shows "all_within l u (pop st') \<and> all_within l u pn'"
proof (cases "mode_available st")
  case False
  with batch_merge_cases [OF run] have "st' = st" "pn' = pn" by simp_all
  with inv show ?thesis by simp
next
  case True
  let ?pn = "update_target_wrapper_population env pn"
  from True batch_merge_cases [OF run] have pn': "pn' = ?pn"
    and g: "greedy_selection_population env (pop st) ?pn = Inr (pop st')"
    by auto
  from all_within_subset [OF selects_positions_update [OF sel] inv(2)]
  have a: "all_within l u ?pn" .
  from all_within_subset2 [OF selects_positions_greedy [OF sel g] inv(1) a]
  have "all_within l u (pop st')" .
  with a pn' show ?thesis by simp
qed

lemma amend_and_select_loop_within:
  assumes am: "amend_within env l u" and sel: "selects_positions env"
    and inv: "loop_within l u stp"
    and run: "amend_and_select env pos g idx stp = Inr stp'"
  shows "loop_within l u stp'"
proof -
  obtain st pn where stp: "stp = (st, pn)" by (cases stp)
  obtain st' pn' where stp': "stp' = (st', pn')" by (cases stp')
  from inv stp have b: "lb st = l" "ub st = u"
    and w: "all_within (lb st) (ub st) (pop st)" "all_within (lb st) (ub st) pn"
    by (simp_all add: loop_within_def)
  from am b have am': "amend_within env (lb st) (ub st)" by simp
  from run stp stp' have r: "amend_and_select env pos g idx (st, pn) = Inr (st', pn')" by simp
  from amend_and_select_within [OF am' sel w r] amend_and_select_frame [OF r] b
  show ?thesis by (simp add: stp' loop_within_def same_frame_def)
qed

lemma batch_merge_loop_within:
  assumes sel: "selects_positions env" and inv: "loop_within l u stp"
    and run: "batch_merge env stp = Inr stp'"
  shows "loop_within l u stp'"
proof -
  obtain st pn where stp: "stp = (st, pn)" by (cases stp)
  obtain st' pn' where stp': "stp' = (st', pn')" by (cases stp')
  from run stp stp' have r: "batch_merge env (st, pn) = Inr (st', pn')" by simp
  from inv stp have b: "lb st = l" "ub st = u"
    and w: "all_within l u (pop st)" "all_within l u pn"
    by (simp_all add: loop_within_def)
  from batch_merge_within [OF sel w r] batch_merge_frame [OF r] b
  show ?thesis by (simp add: stp' loop_within_def same_frame_def)
qed

lemma rng_loop_within:
  assumes "loop_within l u (st, pn)"
  shows "loop_within l u (st\<lparr>rng := g\<rparr>, pn)"
  using assms by (simp add: loop_within_def)

lemma BaseGWO_step_within:
  assumes "amend_within env l u" and "selects_positions env" and "loop_within l u stp"
    and "BaseGWO_step env a list_best idx stp = Inr stp'"
  shows "loop_within l u stp'"
proof -
  from BaseGWO_step_shape [OF assms(4)] obtain pos g where
    "amend_and_select env pos g idx stp = Inr stp'" by (elim exE)
  from amend_and_select_loop_within [OF assms(1-3) this] show ?thesis .
qed

lemma RW_GWO_step_within:
  assumes "amend_within env l u" and "selects_positions env" and "loop_within l u stp"
    and "RW_GWO_step env b leaders idx stp = Inr stp'"
  shows "loop_within l u stp'"
proof -
  from RW_GWO_step_shape [OF assms(4)] obtain pos g where
    "amend_and_select env pos g idx stp = Inr stp'" by (elim exE)
  from amend_and_select_loop_within [OF assms(1-3) this] show ?thesis .
qed

lemma hybrid_within:
  assumes am: "amend_within env l u" and sel: "selects_positions env"
    and inv: "loop_within l u (st, pn)"
    and m: "batch_merge env st1 = Inr stp'"
    and c: "(\<exists>g. st1 = (st\<lparr>rng := g\<rparr>, pn)) \<or>
            (\<exists>pos g. amend_and_select env pos g idx (st, pn) = Inr st1)"
  shows "loop_within l u stp'"
proof -
  from c have "loop_within l u st1"
  proof
    assume "\<exists>g. st1 = (st\<lparr>rng := g\<rparr>, pn)"
    then obtain g where "st1 = (st\<lparr>rng := g\<rparr>, pn)" ..
    with rng_loop_within [OF inv] show ?thesis by simp
  next
    assume "\<exists>pos g. amend_and_select env pos g idx (st, pn) = Inr st1"
    then obtain pos g where "amend_and_select env pos g idx (st, pn) = Inr st1" by (elim exE)
    from amend_and_select_loop_within [OF am sel inv this] show ?thesis .
  qed
  from batch_merge_loop_within [OF sel this m] show ?thesis .
qed

lemma GWO_WOA_M_step_within:
  assumes "amend_within env l u" and "selects_positions env" and "loop_within l u stp"
    and "GWO_WOA_M_step env a a2 list_best idx stp = Inr stp'"
  shows "loop_within l u stp'"
proof -
  obtain st pn where stp: "stp = (st, pn)" by (cases stp)
  from assms(4) stp have "GWO_WOA_M_step env a a2 list_best idx (st, pn) = Inr stp'" by simp
  from GWO_WOA_M_step_shape [OF this] obtain st1 where
    "batch_merge env st1 = Inr stp'"
    "(\<exists>g. st1 = (st\<lparr>rng := g\<rparr>, pn)) \<or>
     (\<exists>pos g. amend_and_select env pos g idx (st, pn) = Inr st1)"
    by (elim exE conjE)
  from hybrid_within [OF assms(1,2) assms(3) [unfolded stp] this] show ?thesis .
qed

lemma GWO_WOA_O_step_within:
  assumes "amend_within env l u" and "selects_positions env" and "loop_within l u stp"
    and "GWO_WOA_O_step env a list_best idx stp = Inr stp'"
  shows "loop_within l u stp'"
proof -
  obtain st pn where stp: "stp = (st, pn)" by (cases stp)
  from assms(4) stp have "GWO_WOA_O_step env a list_best idx (st, pn) = Inr stp'" by simp
  from GWO_WOA_O_step_shape [OF this] obtain st1 where
    "batch_merge env st1 = Inr stp'"
    "(\<exists>g. st1 = (st\<lparr>rng := g\<rparr>, pn)) \<or>
     (\<exists>pos g. amend_and_select env pos g idx (st, pn) = Inr st1)"
    by (elim exE conjE)
  from hybrid_within [OF assms(1,2) assms(3) [unfolded stp] this] show ?thesis .
qed

lemma amend_withinD:
  assumes "amend_within env l u" and "amend_position env x l u g = (c, g')"
  shows "in_bounds l u c"
proof -
  from assms(1) have "in_bounds l u (fst (amend_position env x l u g))"
    by (simp add: amend_within_def)
  with assms(2) show ?thesis by simp
qed

lemma selects_positions_better:
  assumes "selects_positions env" and "in_bounds l u (position x)" and "in_bounds l u (position y)"
  shows "in_bounds l u (position (get_better_solution env x y))"
proof -
  from assms(1) have "position (get_better_solution env x y) = position x \<or>
      position (get_better_solution env x y) = position y"
    by (simp add: selects_positions_def)
  with assms(2,3) show ?thesis by auto
qed

lemma RW_GWO_walk_within:
  assumes am: "amend_within env l u" and sel: "selects_positions env"
    and inv: "walk_within l u stp"
    and run: "RW_GWO_walk env a i stp = Inr stp'"
  shows "walk_within l u stp'"
proof -
  obtain st ls ln where stp: "stp = (st, ls, ln)" by (cases stp)
  obtain st' ls' ln' where stp': "stp' = (st', ls', ln')" by (cases stp')
  from inv stp have b: "lb st = l" "ub st = u"
    and w: "all_within l u (pop st)" "all_within l u ls" "all_within l u ln"
    by (simp_all add: walk_within_def)
  from run stp stp' have "RW_GWO_walk env a i (st, ls, ln) = Inr (st', ls', ln')" by simp
  from RW_GWO_walk_shape [OF this] obtain pos g cand g' where
    i: "i < length ls"
    and c: "amend_position env pos (lb st) (ub st) g = (cand, g')"
    and s: "st' = st\<lparr>rng := g'\<rparr>"
    and n: "ln' = ln @ [Solution cand None]"
    and l: "ls' = (if mode_available st then ls
                   else ls[i := get_better_solution env
                          (Solution cand (Some (get_target_wrapper env cand))) (ls ! i)])"
    by (elim exE conjE)
  from amend_withinD [OF am] c b have cb: "in_bounds l u cand" by simp
  from selects_positions_better [OF sel, of l u "Solution cand (Some (get_target_wrapper env cand))" "ls ! i"]
    cb all_within_nth [OF w(2) i]
  have "in_bounds l u (position (get_better_solution env
      (Solution cand (Some (get_target_wrapper env cand))) (ls ! i)))" by simp
  from all_within_update [OF w(2) this] l w(2) have "all_within l u ls'" by simp
  with s n b w cb show ?thesis by (simp add: stp' walk_within_def)
qed

lemma BaseGWO_loop_within:
  assumes "amend_within env l u" and "selects_positions env" and "loop_within l u stp"
    and "for_range (BaseGWO_step env a list_best) is stp = Inr stp'"
  shows "loop_within l u stp'"
  by (rule for_range_invariant [where P = "loop_within l u", OF _ assms(3,4)])
    (rule BaseGWO_step_within [OF assms(1,2)])

lemma RW_GWO_loop_within:
  assumes "amend_within env l u" and "selects_positions env" and "loop_within l u stp"
    and "for_range (RW_GWO_step env b leaders) is stp = Inr stp'"
  shows "loop_within l u stp'"
  by (rule for_range_invariant [where P = "loop_within l u", OF _ assms(3,4)])
    (rule RW_GWO_step_within [OF assms(1,2)])

lemma RW_GWO_walk_loop_within:
  assumes "amend_within env l u" and "selects_positions env" and "walk_within l u stp"
    and "for_range (RW_GWO_walk env a) is stp = Inr stp'"
  shows "walk_within l u stp'"
  by (rule for_range_invariant [where P = "walk_within l u", OF _ assms(3,4)])
    (rule RW_GWO_walk_within [OF assms(1,2)])

lemma GWO_WOA_M_loop_within:
  assumes "amend_within env l u" and "selects_positions env" and "loop_within l u stp"
    and "for_range (GWO_WOA_M_step env a a2 list_best) is stp = Inr stp'"
  shows "loop_within l u stp'"
  by (rule for_range_invariant [where P = "loop_within l u", OF _ assms(3,4)])
    (rule GWO_WOA_M_step_within [OF assms(1,2)])

lemma GWO_WOA_O_loop_within:
  assumes "amend_within env l u" and "selects_positions env" and "loop_within l u stp"
    and "for_range (GWO_WOA_O_step env a list_best) is stp = Inr stp'"
  shows "loop_within l u stp'"
  by (rule for_range_invariant [where P = "loop_within l u", OF _ assms(3,4)])
    (rule GWO_WOA_O_step_within [OF assms(1,2)])

lemma loop_within_start:
  assumes "all_within (lb self) (ub self) (pop self)"
  shows "loop_within (lb self) (ub self) (self, [])"
  using assms by (simp add: loop_within_def)

lemma BaseGWO_evolve_within:
  assumes am: "amend_within env (lb self) (ub self)" and sel: "selects_positions env"
    and inv: "all_within (lb self) (ub self) (pop self)"
    and run: "BaseGWO_evolve env self t = Inr self'"
  shows "all_within (lb self) (ub self) (pop self')"
proof -
  from BaseGWO_evolve_cases [OF run] obtain a self1 pop_new pop_new' where
    l: "for_range (BaseGWO_step env a (get_special_solutions env (pop self) 3))
             [0 ..< pop_size self] (self, []) = Inr (self1, pop_new)"
    and r: "batch_merge env (self1, pop_new) = Inr (self', pop_new')"
    by (elim exE conjE)
  from BaseGWO_loop_within [OF am sel loop_within_start [OF inv] l]
  have w: "loop_within (lb self) (ub self) (self1, pop_new)" .
  from batch_merge_loop_within [OF sel w r]
  show ?thesis by (simp add: loop_within_def)
qed

lemma RW_GWO_evolve_within:
  assumes am: "amend_within env (lb self) (ub self)" and sel: "selects_positions env"
    and inv: "all_within (lb self) (ub self) (pop self)"
    and run: "RW_GWO_evolve env self t = Inr self'"
  shows "all_within (lb self) (ub self) (pop self')"
proof -
  let ?l = "lb self" and ?u = "ub self"
  from RW_GWO_evolve_cases [OF run] obtain a self1 leaders1 leaders_new leaders2 self2 pop_new
      self3 pop_new'
    where w: "for_range (RW_GWO_walk env a) [0 ..< length (get_special_solutions env (pop self) 3)]
             (self, get_special_solutions env (pop self) 3, []) = Inr (self1, leaders1, leaders_new)"
      and l2: "if mode_available self1 then
                 greedy_selection_population env leaders1
                   (update_target_wrapper_population env leaders_new) = Inr leaders2
               else leaders2 = leaders1"
      and l: "for_range (RW_GWO_step env a leaders2) [0 ..< pop_size self1] (self1, []) = Inr (self2, pop_new)"
      and s3: "batch_merge env (self2, pop_new) = Inr (self3, pop_new')"
      and r: "self' = self3\<lparr>pop := get_sorted_strim_population env (pop self3 @ leaders2) (pop_size self3)\<rparr>"
    by (elim exE conjE)
  from all_within_subset [OF selects_positions_special [OF sel] inv]
  have "all_within ?l ?u (get_special_solutions env (pop self) 3)" .
  with inv have "walk_within ?l ?u (self, get_special_solutions env (pop self) 3, [])"
    by (simp add: walk_within_def)
  from RW_GWO_walk_loop_within [OF am sel this w]
  have ww: "walk_within ?l ?u (self1, leaders1, leaders_new)" .
  then have b1: "lb self1 = ?l" "ub self1 = ?u" and p1: "all_within ?l ?u (pop self1)"
    and w1: "all_within ?l ?u leaders1" and wn: "all_within ?l ?u leaders_new"
    by (simp_all add: walk_within_def)
  from all_within_subset [OF selects_positions_update [OF sel] wn]
  have wu: "all_within ?l ?u (update_target_wrapper_population env leaders_new)" .
  have wl2: "all_within ?l ?u leaders2"
  proof (cases "mode_available self1")
    case True
    with l2 have "greedy_selection_population env leaders1
                   (update_target_wrapper_population env leaders_new) = Inr leaders2" by simp
    from all_within_subset2 [OF selects_positions_greedy [OF sel this] w1 wu] show ?thesis .
  next
    case False
    with l2 w1 show ?thesis by simp
  qed
  from b1 p1 have "loop_within ?l ?u (self1, [])" by (simp add: loop_within_def)
  from RW_GWO_loop_within [OF am sel this l]
  have lw: "loop_within ?l ?u (self2, pop_new)" .
  from batch_merge_loop_within [OF sel lw s3]
  have p3: "all_within ?l ?u (pop self3)" by (simp add: loop_within_def)
  with wl2 have "all_within ?l ?u (pop self3 @ leaders2)" by simp
  from all_within_subset [OF selects_positions_strim [OF sel] this] r
  show ?thesis by simp
qed

lemma GWO_WOA_M_evolve_within:
  assumes am: "amend_within env (lb self) (ub self)" and sel: "selects_positions env"
    and inv: "all_within (lb self) (ub self) (pop self)"
    and run: "GWO_WOA_M_evolve env self t = Inr self'"
  shows "all_within (lb self) (ub self) (pop self')"
proof -
  from GWO_WOA_M_evolve_cases [OF run] obtain a a2 pop_new where
    "for_range (GWO_WOA_M_step env a a2 (get_special_solutions env (pop self) 3))
             [0 ..< pop_size self] (self, []) = Inr (self', pop_new)"
    by (elim exE conjE)
  from GWO_WOA_M_loop_within [OF am sel loop_within_start [OF inv] this]
  show ?thesis by (simp add: loop_within_def)
qed

lemma GWO_WOA_O_evolve_within:
  assumes am: "amend_within env (lb self) (ub self)" and sel: "selects_positions env"
    and inv: "all_within (lb self) (ub self) (pop self)"
    and run: "GWO_WOA_O_evolve env self t = Inr self'"
  shows "all_within (lb self) (ub self) (pop self')"
proof -
  from GWO_WOA_O_evolve_cases [OF run] obtain a pop_new where
    "for_range (GWO_WOA_O_step env a (get_special_solutions env (pop self) 3))
             [0 ..< pop_size self] (self, []) = Inr (self', pop_new)"
    by (elim exE conjE)
  from GWO_WOA_O_loop_within [OF am sel loop_within_start [OF inv] this]
  show ?thesis by (simp add: loop_within_def)
qed

text \<open>The reference collaborators meet the contracts.\<close>

lemma resample_between:
  assumes "l ! i \<le> u ! i"
  shows "l ! i \<le> resample tape l u g i" and "resample tape l u g i \<le> u ! i"
proof -
  let ?c = "min 1 (max 0 (tape (g + i)))"
  have c: "0 \<le> ?c" "?c \<le> 1" by simp_all
  from assms have d: "0 \<le> u ! i - l ! i" by simp
  from d c(1) have "0 \<le> (u ! i - l ! i) * ?c" by (rule mult_nonneg_nonneg)
  then show "l ! i \<le> resample tape l u g i" by (simp add: resample_def)
  from d c(2) have "(u ! i - l ! i) * ?c \<le> (u ! i - l ! i) * 1" by (rule mult_left_mono [rotated])
  then show "resample tape l u g i \<le> u ! i" by (simp add: resample_def)
qed

lemma ref_amend_within:
  assumes "list_all2 (\<le>) l u"
  shows "amend_within (ref_env tape) l u"
proof -
  from assms have len: "length l = length u" and le: "\<And>i. i < length l \<Longrightarrow> l ! i \<le> u ! i"
    by (simp_all add: list_all2_conv_all_nth)
  show ?thesis
    unfolding amend_within_def in_bounds_def ref_env_def ref_amend_position_def
    using len le by (auto simp: list_all2_conv_all_nth resample_between)
qed

lemma set_ref_best: "set (ref_best ps k) \<subseteq> set ps"
proof -
  have "set (take k (sort_key fitness ps)) \<subseteq> set (sort_key fitness ps)" by (rule set_take_subset)
  then show ?thesis by (simp add: ref_best_def)
qed

lemma set_ref_greedy: "ref_greedy old new = Inr ps \<Longrightarrow> set ps \<subseteq> set old \<union> set new"
  by (auto simp: ref_greedy_def set_zip split: if_splits)

lemma ref_selects_positions: "selects_positions (ref_env tape)"
  unfolding selects_positions_def
proof (intro conjI allI)
  fix x y :: "real solution"
  show "position (get_better_solution (ref_env tape) x y) = position x \<or>
        position (get_better_solution (ref_env tape) x y) = position y"
    by (simp add: ref_env_def ref_better_def)
next
  fix ps :: "real solution list" and k
  show "position ` set (get_special_solutions (ref_env tape) ps k) \<subseteq> position ` set ps"
    using set_ref_best [of ps k] by (auto simp: ref_env_def)
next
  fix ps :: "real solution list"
  show "position ` set (update_target_wrapper_population (ref_env tape) ps) \<subseteq> position ` set ps"
    by (auto simp: ref_env_def ref_update_target_def)
next
  fix old new ps :: "real solution list"
  show "greedy_selection_population (ref_env tape) old new = Inr ps \<longrightarrow>
        position ` set ps \<subseteq> position ` set old \<union> position ` set new"
    using set_ref_greedy [of old new ps] by (auto simp: ref_env_def)
next
  fix ps :: "real solution list" and n
  show "position ` set (get_sorted_strim_population (ref_env tape) ps n) \<subseteq> position ` set ps"
    using set_ref_best [of ps n] by (auto simp: ref_env_def)
qed

lemma all_within_coordinates:
  "all_within l u ps \<longleftrightarrow>
     (\<forall>s \<in> set ps. length (position s) = length l \<and> length l = length u \<and>
        (\<forall>i < length l. l ! i \<le> position s ! i \<and> position s ! i \<le> u ! i))"
  by (auto simp: all_within_def in_bounds_def list_all_iff list_all2_conv_all_nth)

text \<open>
  Claim C4. Let \<open>amend_position\<close> return a vector within \<open>[lb, ub]\<close>, let the selecting
  collaborators return solutions at positions of their inputs, and let the population
  lie within the bounds when \<open>evolve\<close> is called. Then for every strategy and both modes,
  when \<open>evolve\<close> returns, every solution of the population has every coordinate within
  \<open>[lb[i], ub[i]]\<close>: only repaired candidates (and refreshed leaders) enter it.
\<close>

theorem evolve_keeps_population_within_bounds:
  assumes "amend_within env (lb self) (ub self)" and "selects_positions env"
    and "all_within (lb self) (ub self) (pop self)"
    and "evolve strat env self t = Inr self'"
  shows "\<forall>s \<in> set (pop self'). length (position s) = length (lb self') \<and>
           (\<forall>i < length (lb self'). lb self' ! i \<le> position s ! i \<and> position s ! i \<le> ub self' ! i)"
proof -
  from evolve_frame [OF assms(4)] have b: "lb self' = lb self" "ub self' = ub self"
    by (simp_all add: same_frame_def)
  have "all_within (lb self) (ub self) (pop self')"
  proof (cases strat)
    case BaseGWO
    with assms(4) have "BaseGWO_evolve env self t = Inr self'" by simp
    from BaseGWO_evolve_within [OF assms(1-3) this] show ?thesis .
  next
    case RW_GWO
    with assms(4) have "RW_GWO_evolve env self t = Inr self'" by simp
    from RW_GWO_evolve_within [OF assms(1-3) this] show ?thesis .
  next
    case GWO_WOA_M
    with assms(4) have "GWO_WOA_M_evolve env self t = Inr self'" by simp
    from GWO_WOA_M_evolve_within [OF assms(1-3) this] show ?thesis .
  next
    case GWO_WOA_O
    with assms(4) have "GWO_WOA_O_evolve env self t = Inr self'" by simp
    from GWO_WOA_O_evolve_within [OF assms(1-3) this] show ?thesis .
  qed
  with b show ?thesis by (simp add: all_within_coordinates)
qed

theorem evolve_keeps_population_within_bounds_witness:
  "amend_within (ref_env tape_cycle) (lb (demo_self False)) (ub (demo_self False)) \<and>
   selects_positions (ref_env tape_cycle) \<and>
   all_within (lb (demo_self False)) (ub (demo_self False)) (pop (demo_self False)) \<and>
   evolve GWO_WOA_M (ref_env tape_cycle) (demo_self False) 0 =
     Inr ((demo_self False)\<lparr>pop := map (\<lambda>v. Solution [v] (Some (v * v)))
            [1, 5 / 3, 3, 4, 2 / 3, 6, 7, - (1 / 3), 9, 0], rng := 107\<rparr>) \<and>
   list_all (\<lambda>s. length (position s) = 1 \<and> - 10 \<le> position s ! 0 \<and> position s ! 0 \<le> 10)
     (map (\<lambda>v. Solution [v] (Some (v * v))) [1, 5 / 3, 3, 4, 2 / 3, 6, 7, - (1 / 3), 9, 0])"
proof -
  let ?env = "ref_env tape_cycle"
  let ?s = "demo_self False"
  have am: "amend_within ?env (lb ?s) (ub ?s)"
    by (rule ref_amend_within) (simp add: demo_self_def)
  have sel: "selects_positions ?env"
    by (rule ref_selects_positions)
  have inv: "all_within (lb ?s) (ub ?s) (pop ?s)"
    by (simp add: all_within_def in_bounds_def ref_defs tape_cycle_def)
  have run: "evolve GWO_WOA_M ?env ?s 0 =
     Inr (?s\<lparr>pop := map (\<lambda>v. Solution [v] (Some (v * v)))
            [1, 5 / 3, 3, 4, 2 / 3, 6, 7, - (1 / 3), 9, 0], rng := 107\<rparr>)"
  proof -
    have "GWO_WOA_M_evolve ?env ?s 0 =
     Inr (?s\<lparr>pop := map (\<lambda>v. Solution [v] (Some (v * v)))
            [1, 5 / 3, 3, 4, 2 / 3, 6, 7, - (1 / 3), 9, 0], rng := 107\<rparr>)"
      by code_simp
    then show ?thesis by simp
  qed
  from evolve_keeps_population_within_bounds [OF am sel inv run] am sel inv run
  show ?thesis
    by (simp add: demo_self_def)
qed

section \<open>The size of the population\<close>






















text \<open>
  In the hybrids the block that evaluates and merges \<open>pop_new\<close> is indented into the loop
  (lines 277-279 and 382-384; in \<open>BaseGWO\<close> and \<open>RW_GWO\<close> it follows the loop). In a batch
  mode every iteration that returns has merged \<open>self.pop\<close> with the candidates appended so
  far, at most one per iteration.
\<close>

lemma hybrid_batch_merges_every_iteration:
  assumes "mode_available st"
  shows "GWO_WOA_M_step env a a2 list_best idx (st, pn) = Inr (st', pn') \<Longrightarrow>
           greedy_selection_population env (pop st) pn' = Inr (pop st') \<and>
           (pn' = update_target_wrapper_population env pn \<or>
            (\<exists>c. pn' = update_target_wrapper_population env (pn @ [c])))"
    and "GWO_WOA_O_step env a' list_best idx (st, pn) = Inr (st', pn') \<Longrightarrow>
           greedy_selection_population env (pop st) pn' = Inr (pop st') \<and>
           (pn' = update_target_wrapper_population env pn \<or>
            (\<exists>c. pn' = update_target_wrapper_population env (pn @ [c])))"
proof -
  have *: "greedy_selection_population env (pop st) pn' = Inr (pop st') \<and>
           (pn' = update_target_wrapper_population env pn \<or>
            (\<exists>c. pn' = update_target_wrapper_population env (pn @ [c])))"
    if m: "batch_merge env st1 = Inr (st', pn')"
      and c: "(\<exists>g. st1 = (st\<lparr>rng := g\<rparr>, pn)) \<or>
              (\<exists>pos g. amend_and_select env pos g idx (st, pn) = Inr st1)"
    for st1
    using c
  proof
    assume "\<exists>g. st1 = (st\<lparr>rng := g\<rparr>, pn)"
    then obtain g where "st1 = (st\<lparr>rng := g\<rparr>, pn)" ..
    with m assms batch_merge_cases [of env "st\<lparr>rng := g\<rparr>" pn st' pn'] show ?thesis by auto
  next
    assume "\<exists>pos g. amend_and_select env pos g idx (st, pn) = Inr st1"
    then obtain pos g where a: "amend_and_select env pos g idx (st, pn) = Inr st1" by (elim exE)
    obtain s1 p1 where st1: "st1 = (s1, p1)" by (cases st1)
    from amend_and_select_cases [OF a [unfolded st1]] assms obtain cand g' where
      "p1 = pn @ [Solution cand None]" "s1 = st\<lparr>rng := g'\<rparr>"
      by auto
    with m st1 assms batch_merge_cases [of env "st\<lparr>rng := g'\<rparr>" "pn @ [Solution cand None]" st' pn']
    show ?thesis by auto
  qed
  show "GWO_WOA_M_step env a a2 list_best idx (st, pn) = Inr (st', pn') \<Longrightarrow>
           greedy_selection_population env (pop st) pn' = Inr (pop st') \<and>
           (pn' = update_target_wrapper_population env pn \<or>
            (\<exists>c. pn' = update_target_wrapper_population env (pn @ [c])))"
    using GWO_WOA_M_step_shape [of env a a2 list_best idx st pn "(st', pn')"] * by blast
  show "GWO_WOA_O_step env a' list_best idx (st, pn) = Inr (st', pn') \<Longrightarrow>
           greedy_selection_population env (pop st) pn' = Inr (pop st') \<and>
           (pn' = update_target_wrapper_population env pn \<or>
            (\<exists>c. pn' = update_target_wrapper_population env (pn @ [c])))"
    using GWO_WOA_O_step_shape [of env a' list_best idx st pn "(st', pn')"] * by blast
qed

text \<open>
  On the ten-member population \<open>[1], ..., [10]\<close> in a batch mode, under the reference
  collaborators: the merge of the first iteration is asked for ten members against at
  most one candidate and refuses, so \<open>evolve\<close> of either hybrid raises; the population
  keeps its ten members, since the assignment to \<open>self.pop\<close> is not reached.
\<close>

lemma hybrid_batch_first_merge_refused:
  "evolve GWO_WOA_M (ref_env tape_half) (demo_self True) 0 = Inl ValueError"
  "evolve GWO_WOA_O (ref_env tape_half) (demo_self True) 0 = Inl ValueError"
  by (simp_all add: model_defs ref_defs tape_half_def upt_rec eval_nat_numeral)

section \<open>The formulas of \<open>GWO_WOA_O\<close>\<close>

lemma loop_trace_nonempty [simp]: "loop_trace body is st \<noteq> []"
  by (cases "is") simp_all

lemma loop_trace_hd: "loop_trace body is st ! 0 = st"
  by (cases "is") simp_all










end
